theory Spec2Isabelle
  imports Main "HOL-Library.Word" "HOL-Library.Sublist"
begin

unbundle bit_operations_syntax

section \<open>Go standard library functions used by the handler\<close>

subsection \<open>Package strings\<close>

text \<open>
  A Go string is a sequence of bytes, as \<^typ>\<open>string\<close> is.
  \<^verbatim>\<open>strings.HasPrefix(s, prefix)\<close> is
  \<^verbatim>\<open>len(s) >= len(prefix) && s[:len(prefix)] == prefix\<close>.
\<close>

definition HasPrefix :: "string \<Rightarrow> string \<Rightarrow> bool" where
  "HasPrefix s pre = (length pre \<le> length s \<and> take (length pre) s = pre)"

text \<open>\<^verbatim>\<open>strings.TrimPrefix\<close>: s without the prefix when it has it, s otherwise.\<close>

definition TrimPrefix :: "string \<Rightarrow> string \<Rightarrow> string" where
  "TrimPrefix s pre = (if HasPrefix s pre then drop (length pre) s else s)"

text \<open>
  \<^verbatim>\<open>strings.Contains(s, substr)\<close> is \<^verbatim>\<open>strings.Index(s, substr) >= 0\<close>:
  some position of s starts an occurrence of substr. The positions are tried from the left.
\<close>

fun Contains :: "string \<Rightarrow> string \<Rightarrow> bool" where
  "Contains [] substr = HasPrefix [] substr"
| "Contains (c # s) substr = (HasPrefix (c # s) substr \<or> Contains s substr)"

subsection \<open>Package path\<close>

text \<open>
  \<^verbatim>\<open>path.Ext\<close> walks from the last byte towards the front, stops at a slash, and returns
  the suffix that starts at the first dot it meets:
  \<^verbatim>\<open>for i := len(path) - 1; i >= 0 && path[i] != '/'; i-- { if path[i] == '.' { return path[i:] } }; return ""\<close>.
  \<open>Ext_loop\<close> takes the bytes still to visit (last one first) and the bytes already
  passed, in their order in the path.
\<close>

fun Ext_loop :: "string \<Rightarrow> string \<Rightarrow> string" where
  "Ext_loop [] passed = []"
| "Ext_loop (c # rest) passed =
     (if c = CHR ''/'' then []
      else if c = CHR ''.'' then c # passed
      else Ext_loop rest (c # passed))"

definition Ext :: "string \<Rightarrow> string" where
  "Ext p = Ext_loop (rev p) []"

text \<open>
  \<^verbatim>\<open>path.Clean\<close> writes its result into a buffer \<open>out\<close> (the \<^verbatim>\<open>lazybuf\<close>; its
  write index \<^verbatim>\<open>out.w\<close> is \<open>length out\<close> here) while it reads the path from the left;
  \<open>dotdot\<close> is the index below which \<open>..\<close> must not back up. The loop state is the unread
  rest of the path, never the consumed part, so \<^verbatim>\<open>r < n\<close> is \<open>rest \<noteq> []\<close>.

  Backing up over the last element of \<open>out\<close>:
  \<^verbatim>\<open>out.w--; for out.w > dotdot && out.index(out.w) != '/' { out.w-- }\<close>.
  \<open>lazybuf_back out dotdot w\<close> runs the \<^verbatim>\<open>for\<close> from \<open>out.w = w\<close> and returns the final index.
\<close>

fun lazybuf_back :: "string \<Rightarrow> nat \<Rightarrow> nat \<Rightarrow> nat" where
  "lazybuf_back out dotdot 0 = 0"
| "lazybuf_back out dotdot (Suc w) =
     (if Suc w > dotdot \<and> out ! Suc w \<noteq> CHR ''/'' then lazybuf_back out dotdot w else Suc w)"

function Clean_loop :: "bool \<Rightarrow> string \<Rightarrow> string \<Rightarrow> nat \<Rightarrow> string" where
  "Clean_loop rooted [] out dotdot = out"
| "Clean_loop rooted (c # cs) out dotdot =
     (if c = CHR ''/'' then
        \<comment> \<open>empty path element\<close>
        Clean_loop rooted cs out dotdot
      else if c = CHR ''.'' \<and> (cs = [] \<or> hd cs = CHR ''/'') then
        \<comment> \<open>. element\<close>
        Clean_loop rooted cs out dotdot
      else if c = CHR ''.'' \<and> hd cs = CHR ''.'' \<and> (tl cs = [] \<or> hd (tl cs) = CHR ''/'') then
        \<comment> \<open>.. element: remove to last /\<close>
        (if length out > dotdot then
           Clean_loop rooted (tl cs) (take (lazybuf_back out dotdot (length out - 1)) out) dotdot
         else if \<not> rooted then
           \<comment> \<open>cannot backtrack, but not rooted, so append .. element\<close>
           (let out' = (if length out > 0 then out @ ''/'' else out) @ ''..''
            in Clean_loop rooted (tl cs) out' (length out'))
         else Clean_loop rooted (tl cs) out dotdot)
      else
        \<comment> \<open>real path element: add slash if needed, then copy the element\<close>
        (let out' = (if rooted \<and> length out \<noteq> 1 \<or> \<not> rooted \<and> length out \<noteq> 0
                     then out @ ''/'' else out)
         in Clean_loop rooted (dropWhile (\<lambda>x. x \<noteq> CHR ''/'') cs)
              (out' @ c # takeWhile (\<lambda>x. x \<noteq> CHR ''/'') cs) dotdot))"
  by pat_completeness auto
termination
  by (relation "measure (\<lambda>(rooted, rest, out, dotdot). length rest)")
     (auto simp: length_dropWhile_le less_Suc_eq_le)

definition Clean :: "string \<Rightarrow> string" where
  "Clean p =
     (if p = [] then ''.''
      else
        let rooted = (hd p = CHR ''/'');
            out = (if rooted then Clean_loop True (tl p) ''/'' 1 else Clean_loop False p [] 0)
        in if out = [] then ''.'' else out)"

subsection \<open>Package path/filepath\<close>

text \<open>
  \<^verbatim>\<open>filepath.Join\<close> of two elements, with the slash as separator: the elements from the
  first non-empty one on are joined with the separator and the result is cleaned; it is
  empty when both are empty. With this separator \<^verbatim>\<open>filepath.Clean\<close> is \<^verbatim>\<open>path.Clean\<close>.
\<close>

definition Join :: "string \<Rightarrow> string \<Rightarrow> string" where
  "Join a b = (if a \<noteq> [] then Clean (a @ ''/'' @ b) else if b \<noteq> [] then Clean b else [])"

subsection \<open>Errors\<close>

text \<open>
  The Go \<^verbatim>\<open>error\<close> values that reach the handler. \<open>ErrNotExist\<close> is \<^verbatim>\<open>fs.ErrNotExist\<close>,
  \<open>ErrLength\<close> and \<open>InvalidByteError\<close> are those of encoding/hex, \<open>ErrorResponse\<close> is the
  object store's \<^verbatim>\<open>minio.ErrorResponse\<close> with its HTTP status code, and \<open>OtherError\<close>
  stands for any other failure (disk, network, a cancelled context) by its message.
  The values are flat, so \<^verbatim>\<open>errors.Is(err, target)\<close> is equality.
\<close>

type_synonym byte = "8 word"

datatype error =
    ErrNotExist
  | ErrLength
  | InvalidByteError byte
  | ErrorResponse nat
  | OtherError string

definition errors_Is :: "error \<Rightarrow> error \<Rightarrow> bool" where
  "errors_Is err target = (err = target)"

subsection \<open>Bytes of a string\<close>

text \<open>The conversion \<^verbatim>\<open>[]byte(s)\<close>.\<close>

definition bytes :: "string \<Rightarrow> byte list" where
  "bytes s = map (\<lambda>c. of_nat (of_char c)) s"

subsection \<open>Package encoding/hex\<close>

definition hextable :: string where
  "hextable = ''0123456789abcdef''"

text \<open>
  \<^verbatim>\<open>hex.EncodeToString\<close>: each byte \<open>v\<close> gives \<^verbatim>\<open>hextable[v>>4]\<close> and \<^verbatim>\<open>hextable[v&0x0f]\<close>.
\<close>

fun EncodeToString :: "byte list \<Rightarrow> string" where
  "EncodeToString [] = []"
| "EncodeToString (v # src) =
     hextable ! unat (drop_bit 4 v) # hextable ! unat (v AND 0x0f) # EncodeToString src"

text \<open>
  \<^verbatim>\<open>reverseHexTable\<close> holds the value of each of the digits 0-9, a-f and A-F, and 0xff for
  every other byte.
\<close>

definition reverseHexTable :: "char \<Rightarrow> byte" where
  "reverseHexTable c =
     (let n = (of_char c :: nat) in
      if 48 \<le> n \<and> n \<le> 57 then of_nat (n - 48)
      else if 97 \<le> n \<and> n \<le> 102 then of_nat (n - 87)
      else if 65 \<le> n \<and> n \<le> 70 then of_nat (n - 55)
      else 0xff)"

text \<open>
  \<^verbatim>\<open>hex.DecodeString\<close> returns the bytes decoded before the error together with the error:
  the loop of \<^verbatim>\<open>hex.Decode\<close> takes two digits at a time and stops at the first byte that
  is no digit; a single digit left at the end is \<^verbatim>\<open>ErrLength\<close>, unless it is no digit.
\<close>

fun DecodeString :: "string \<Rightarrow> byte list \<times> error option" where
  "DecodeString (p # q # src) =
     (let a = reverseHexTable p; b = reverseHexTable q in
      if a > 0x0f then ([], Some (InvalidByteError (of_nat (of_char p))))
      else if b > 0x0f then ([], Some (InvalidByteError (of_nat (of_char q))))
      else (case DecodeString src of (dst, err) \<Rightarrow> ((push_bit 4 a OR b) # dst, err)))"
| "DecodeString [p] =
     (if reverseHexTable p > 0x0f then ([], Some (InvalidByteError (of_nat (of_char p))))
      else ([], Some ErrLength))"
| "DecodeString [] = ([], None)"

subsection \<open>Package encoding/binary and math/bits\<close>

definition RotateLeft32 :: "32 word \<Rightarrow> nat \<Rightarrow> 32 word" where
  "RotateLeft32 x k = push_bit k x OR drop_bit (32 - k) x"

fun le_Uint32 :: "byte list \<Rightarrow> 32 word" where
  "le_Uint32 (b0 # b1 # b2 # b3 # _) =
     ucast b0 OR push_bit 8 (ucast b1) OR push_bit 16 (ucast b2) OR push_bit 24 (ucast b3)"
| "le_Uint32 _ = 0"

fun be_Uint32 :: "byte list \<Rightarrow> 32 word" where
  "be_Uint32 (b0 # b1 # b2 # b3 # _) =
     push_bit 24 (ucast b0) OR push_bit 16 (ucast b1) OR push_bit 8 (ucast b2) OR ucast b3"
| "be_Uint32 _ = 0"

definition le_PutUint32 :: "32 word \<Rightarrow> byte list" where
  "le_PutUint32 v = [ucast v, ucast (drop_bit 8 v), ucast (drop_bit 16 v), ucast (drop_bit 24 v)]"

definition be_PutUint32 :: "32 word \<Rightarrow> byte list" where
  "be_PutUint32 v = [ucast (drop_bit 24 v), ucast (drop_bit 16 v), ucast (drop_bit 8 v), ucast v]"

definition le_PutUint64 :: "64 word \<Rightarrow> byte list" where
  "le_PutUint64 v = map (\<lambda>i. ucast (drop_bit (8 * i) v)) [0..<8]"

definition be_PutUint64 :: "64 word \<Rightarrow> byte list" where
  "be_PutUint64 v = map (\<lambda>i. ucast (drop_bit (8 * (7 - i)) v)) [0..<8]"

subsection \<open>Package crypto/md5\<close>

definition md5_Size :: nat where
  "md5_Size = 16"

definition md5_shifts :: "nat list" where
  "md5_shifts = [7, 12, 17, 22, 7, 12, 17, 22, 7, 12, 17, 22, 7, 12, 17, 22,
                 5, 9, 14, 20, 5, 9, 14, 20, 5, 9, 14, 20, 5, 9, 14, 20,
                 4, 11, 16, 23, 4, 11, 16, 23, 4, 11, 16, 23, 4, 11, 16, 23,
                 6, 10, 15, 21, 6, 10, 15, 21, 6, 10, 15, 21, 6, 10, 15, 21]"

definition md5_table :: "32 word list" where
  "md5_table = [
    0xd76aa478, 0xe8c7b756, 0x242070db, 0xc1bdceee, 0xf57c0faf, 0x4787c62a, 0xa8304613, 0xfd469501,
    0x698098d8, 0x8b44f7af, 0xffff5bb1, 0x895cd7be, 0x6b901122, 0xfd987193, 0xa679438e, 0x49b40821,
    0xf61e2562, 0xc040b340, 0x265e5a51, 0xe9b6c7aa, 0xd62f105d, 0x02441453, 0xd8a1e681, 0xe7d3fbc8,
    0x21e1cde6, 0xc33707d6, 0xf4d50d87, 0x455a14ed, 0xa9e3e905, 0xfcefa3f8, 0x676f02d9, 0x8d2a4c8a,
    0xfffa3942, 0x8771f681, 0x6d9d6122, 0xfde5380c, 0xa4beea44, 0x4bdecfa9, 0xf6bb4b60, 0xbebfbc70,
    0x289b7ec6, 0xeaa127fa, 0xd4ef3085, 0x04881d05, 0xd9d4d039, 0xe6db99e5, 0x1fa27cf8, 0xc4ac5665,
    0xf4292244, 0x432aff97, 0xab9423a7, 0xfc93a039, 0x655b59c3, 0x8f0ccc92, 0xffeff47d, 0x85845dd1,
    0x6fa87e4f, 0xfe2ce6e0, 0xa3014314, 0x4e0811a1, 0xf7537e82, 0xbd3af235, 0x2ad7d2bb, 0xeb86d391]"

text \<open>The sixteen little-endian words of a 64-byte block.\<close>

definition md5_words :: "byte list \<Rightarrow> 32 word list" where
  "md5_words blk = map (\<lambda>i. le_Uint32 (drop (4 * i) blk)) [0..<16]"

type_synonym md5_state = "32 word \<times> 32 word \<times> 32 word \<times> 32 word"

text \<open>Operation \<open>i\<close> of the 64 of a block, in the four rounds of RFC 1321.\<close>

fun md5_step :: "32 word list \<Rightarrow> nat \<Rightarrow> md5_state \<Rightarrow> md5_state" where
  "md5_step M i (a, b, c, d) =
     (let (f, g) =
        (if i < 16 then ((b AND c) OR (NOT b AND d), i)
         else if i < 32 then ((d AND b) OR (NOT d AND c), (5 * i + 1) mod 16)
         else if i < 48 then (b XOR c XOR d, (3 * i + 5) mod 16)
         else (c XOR (b OR NOT d), (7 * i) mod 16))
      in (d, b + RotateLeft32 (a + f + md5_table ! i + M ! g) (md5_shifts ! i), b, c))"

fun md5_block :: "md5_state \<Rightarrow> byte list \<Rightarrow> md5_state" where
  "md5_block (a0, b0, c0, d0) blk =
     (case fold (md5_step (md5_words blk)) [0..<64] (a0, b0, c0, d0) of
        (a, b, c, d) \<Rightarrow> (a0 + a, b0 + b, c0 + c, d0 + d))"

fun md5_blocks :: "nat \<Rightarrow> md5_state \<Rightarrow> byte list \<Rightarrow> md5_state" where
  "md5_blocks 0 s p = s"
| "md5_blocks (Suc n) s p = md5_blocks n (md5_block s (take 64 p)) (drop 64 p)"

text \<open>
  The padding: a 1 bit, 0 bits up to 56 bytes mod 64, and the length in bits as a 64-bit
  little-endian number (the length wraps as \<^verbatim>\<open>uint64\<close>).
\<close>

definition md5_pad :: "byte list \<Rightarrow> byte list" where
  "md5_pad msg = msg @ [0x80] @ replicate (nat ((55 - int (length msg)) mod 64)) 0
                  @ le_PutUint64 (push_bit 3 (of_nat (length msg)))"

definition md5_Sum :: "byte list \<Rightarrow> byte list" where
  "md5_Sum msg =
     (let p = md5_pad msg in
      case md5_blocks (length p div 64) (0x67452301, 0xefcdab89, 0x98badcfe, 0x10325476) p of
        (a, b, c, d) \<Rightarrow> le_PutUint32 a @ le_PutUint32 b @ le_PutUint32 c @ le_PutUint32 d)"

subsection \<open>Package crypto/sha256\<close>

text \<open>
  The round constants are the first 32 bits of the fractional parts of the cube roots of
  the first 64 primes, and the initial hash value those of the square roots of the first 8.
\<close>

definition sha256_K :: "32 word list" where
  "sha256_K = [
    1116352408, 1899447441, 3049323471, 3921009573, 961987163, 1508970993,
    2453635748, 2870763221, 3624381080, 310598401, 607225278, 1426881987,
    1925078388, 2162078206, 2614888103, 3248222580, 3835390401, 4022224774,
    264347078, 604807628, 770255983, 1249150122, 1555081692, 1996064986,
    2554220882, 2821834349, 2952996808, 3210313671, 3336571891, 3584528711,
    113926993, 338241895, 666307205, 773529912, 1294757372, 1396182291,
    1695183700, 1986661051, 2177026350, 2456956037, 2730485921, 2820302411,
    3259730800, 3345764771, 3516065817, 3600352804, 4094571909, 275423344,
    430227734, 506948616, 659060556, 883997877, 958139571, 1322822218,
    1537002063, 1747873779, 1955562222, 2024104815, 2227730452, 2361852424,
    2428436474, 2756734187, 3204031479, 3329325298]"

definition sha256_init :: "32 word list" where
  "sha256_init = [
    1779033703, 3144134277, 1013904242, 2773480762, 1359893119, 2600822924,
    528734635, 1541459225]"

text \<open>
  The message schedule: the sixteen big-endian words of the block, then for \<open>i\<close> from 16
  to 63 \<^verbatim>\<open>w[i] = t1 + w[i-7] + t2 + w[i-16]\<close>. \<open>sha256_extend k w\<close> appends \<open>k\<close> more words.
\<close>

fun sha256_extend :: "nat \<Rightarrow> 32 word list \<Rightarrow> 32 word list" where
  "sha256_extend 0 w = w"
| "sha256_extend (Suc k) w =
     (let i = length w;
          v1 = w ! (i - 2);
          t1 = RotateLeft32 v1 (32 - 17) XOR RotateLeft32 v1 (32 - 19) XOR drop_bit 10 v1;
          v2 = w ! (i - 15);
          t2 = RotateLeft32 v2 (32 - 7) XOR RotateLeft32 v2 (32 - 18) XOR drop_bit 3 v2
      in sha256_extend k (w @ [t1 + w ! (i - 7) + t2 + w ! (i - 16)]))"

definition sha256_schedule :: "byte list \<Rightarrow> 32 word list" where
  "sha256_schedule blk = sha256_extend 48 (map (\<lambda>i. be_Uint32 (drop (4 * i) blk)) [0..<16])"

fun sha256_round :: "32 word list \<Rightarrow> nat \<Rightarrow> 32 word list \<Rightarrow> 32 word list" where
  "sha256_round w i [a, b, c, d, e, f, g, h] =
     (let t1 = h + (RotateLeft32 e (32 - 6) XOR RotateLeft32 e (32 - 11) XOR RotateLeft32 e (32 - 25))
                 + ((e AND f) XOR (NOT e AND g)) + sha256_K ! i + w ! i;
          t2 = (RotateLeft32 a (32 - 2) XOR RotateLeft32 a (32 - 13) XOR RotateLeft32 a (32 - 22))
                 + ((a AND b) XOR (a AND c) XOR (b AND c))
      in [t1 + t2, a, b, c, d + t1, e, f, g])"
| "sha256_round w i s = s"

definition sha256_block :: "32 word list \<Rightarrow> byte list \<Rightarrow> 32 word list" where
  "sha256_block hs blk = map2 (+) hs (fold (sha256_round (sha256_schedule blk)) [0..<64] hs)"

fun sha256_blocks :: "nat \<Rightarrow> 32 word list \<Rightarrow> byte list \<Rightarrow> 32 word list" where
  "sha256_blocks 0 hs p = hs"
| "sha256_blocks (Suc n) hs p = sha256_blocks n (sha256_block hs (take 64 p)) (drop 64 p)"

definition sha256_pad :: "byte list \<Rightarrow> byte list" where
  "sha256_pad msg = msg @ [0x80] @ replicate (nat ((55 - int (length msg)) mod 64)) 0
                     @ be_PutUint64 (push_bit 3 (of_nat (length msg)))"

definition sha256_Sum256 :: "byte list \<Rightarrow> byte list" where
  "sha256_Sum256 msg =
     (let p = sha256_pad msg
      in concat (map be_PutUint32 (sha256_blocks (length p div 64) sha256_init p)))"

subsection \<open>Package time\<close>

text \<open>A \<^verbatim>\<open>time.Duration\<close> is a number of nanoseconds.\<close>

definition Nanosecond :: int where "Nanosecond = 1"
definition Microsecond :: int where "Microsecond = 1000 * Nanosecond"
definition Millisecond :: int where "Millisecond = 1000 * Microsecond"
definition Second :: int where "Second = 1000 * Millisecond"
definition Minute :: int where "Minute = 60 * Second"
definition Hour :: int where "Hour = 60 * Minute"

section \<open>Redirect eligibility\<close>

definition isAutoRedirectableGoproxyCache :: "string \<Rightarrow> bool" where
  "isAutoRedirectableGoproxyCache name =
     (\<not> HasPrefix name ''sumdb/'' \<and> Contains name ''/@v/'' \<and> Ext name = ''.zip'')"

section \<open>The object store and the configuration\<close>

text \<open>
  What \<^verbatim>\<open>StatObject\<close> returns of an object: the fields of \<^verbatim>\<open>minio.ObjectInfo\<close> the handler
  reads. Sizes are \<^verbatim>\<open>int64\<close> and are only compared, so they are integers here; a time is
  an opaque number.
\<close>

record ObjectInfo =
  Key :: string
  Size :: int
  ETag :: string
  LastModified :: int

record PutObjectOptions =
  ContentType :: string
  DisableMultipart :: bool

text \<open>
  The object store is an external service: \<open>qiniuKodoClient\<close> is consumed through its four
  calls, each given by what it answers (\<open>Inl\<close> the error). The context argument only makes
  a call fail, which the answers cover. A body is the list of its bytes; \<^verbatim>\<open>PutObject\<close>
  answers with its error only, the handler drops the upload information.
\<close>

record Client =
  StatObject :: "string \<Rightarrow> string \<Rightarrow> error + ObjectInfo"
  GetObject :: "string \<Rightarrow> string \<Rightarrow> error + byte list"
  PutObject :: "string \<Rightarrow> string \<Rightarrow> byte list \<Rightarrow> int \<Rightarrow> PutObjectOptions \<Rightarrow> error option"
  Presign :: "string \<Rightarrow> string \<Rightarrow> string \<Rightarrow> int \<Rightarrow> (string \<times> string list) list \<Rightarrow> error + string"

text \<open>
  The package-level variables of the handler. \<open>isMinIOObjectNotExist\<close> is a function of
  this package that another file defines; it tells of an error of the store whether it
  means that the object does not exist. It is a parameter here, so every result holds
  for whatever it computes.
\<close>

record env =
  qiniuKodoClient :: Client
  qiniuKodoBucketName :: string
  isMinIOObjectNotExist :: "error \<Rightarrow> bool"
  goproxyAutoRedirect :: bool
  goproxyAutoRedirectMinSize :: int

section \<open>The request handler\<close>

text \<open>
  What \<open>hGoproxy\<close> does with a request: hands it to \<^verbatim>\<open>hhGoproxy.ServeHTTP\<close> and returns
  nil, returns the result of \<^verbatim>\<open>res.Redirect\<close> to a URL, or returns an error.
\<close>

datatype response = ServeHTTP | Redirect string | ReturnError error

definition hGoproxy :: "env \<Rightarrow> string \<Rightarrow> string \<Rightarrow> response" where
  "hGoproxy E httpMethod rawPath =
     (let name = TrimPrefix (Clean rawPath) ''/'' in
      if \<not> goproxyAutoRedirect E \<or> \<not> isAutoRedirectableGoproxyCache name then ServeHTTP
      else
        case StatObject (qiniuKodoClient E) (qiniuKodoBucketName E) name of
          Inl err \<Rightarrow> if isMinIOObjectNotExist E err then ServeHTTP else ReturnError err
        | Inr objectInfo \<Rightarrow>
            if Size objectInfo < goproxyAutoRedirectMinSize E then ServeHTTP
            else
              case Presign (qiniuKodoClient E) httpMethod (qiniuKodoBucketName E) (Key objectInfo)
                     (7 * 24 * Hour)
                     [(''response-cache-control'', [''public, max-age=604800''])] of
                Inl err \<Rightarrow> ReturnError err
              | Inr u \<Rightarrow> Redirect u)"

section \<open>The cacher: Get\<close>

record goproxyCacheReader =
  ReadSeekCloser :: "byte list"
  modTime :: int
  checksum :: "byte list"

definition Get :: "env \<Rightarrow> string \<Rightarrow> error + goproxyCacheReader" where
  "Get E name =
     (case StatObject (qiniuKodoClient E) (qiniuKodoBucketName E) name of
        Inl err \<Rightarrow> if isMinIOObjectNotExist E err then Inl ErrNotExist else Inl err
      | Inr objectInfo \<Rightarrow>
          let decoded = fst (DecodeString (ETag objectInfo));
              sum = (if length decoded \<noteq> md5_Size then md5_Sum (bytes (ETag objectInfo))
                     else decoded)
          in case GetObject (qiniuKodoClient E) (qiniuKodoBucketName E) (Key objectInfo) of
               Inl err \<Rightarrow> Inl err
             | Inr object \<Rightarrow>
                 Inr \<lparr>ReadSeekCloser = object, modTime = LastModified objectInfo, checksum = sum\<rparr>)"

section \<open>The staging directory\<close>

text \<open>
  The local disk: the content of every file, by its path. The handler works in one
  directory, the staging root, which exists while it runs.

  Calls of the operating system can fail for reasons the model does not hold (a full
  disk, a lost permission, a file held open): each call of \<open>Set\<close> and each visit
  of the synchronizer takes the faults that strike during it, \<open>None\<close> where the call goes
  through. \<^verbatim>\<open>os.Stat\<close> and \<^verbatim>\<open>os.Open\<close> without a fault succeed exactly on the files that
  exist, and report \<^verbatim>\<open>fs.ErrNotExist\<close> on the others.
\<close>

type_synonym disk = "string \<rightharpoonup> byte list"

definition os_Stat :: "error option \<Rightarrow> disk \<Rightarrow> string \<Rightarrow> error option" where
  "os_Stat fault d p =
     (case fault of
        Some err \<Rightarrow> Some err
      | None \<Rightarrow> (case d p of None \<Rightarrow> Some ErrNotExist | Some body \<Rightarrow> None))"

text \<open>\<^verbatim>\<open>os.Create\<close> creates the file or truncates it.\<close>

definition os_Create :: "error option \<Rightarrow> disk \<Rightarrow> string \<Rightarrow> error + disk" where
  "os_Create fault d p =
     (case fault of Some err \<Rightarrow> Inl err | None \<Rightarrow> Inr (d(p \<mapsto> [])))"

definition os_Open :: "error option \<Rightarrow> disk \<Rightarrow> string \<Rightarrow> error + byte list" where
  "os_Open fault d p =
     (case fault of
        Some err \<Rightarrow> Inl err
      | None \<Rightarrow> (case d p of None \<Rightarrow> Inl ErrNotExist | Some body \<Rightarrow> Inr body))"

text \<open>\<^verbatim>\<open>(*os.File).Stat\<close>, of which the code reads the size.\<close>

definition File_Stat :: "error option \<Rightarrow> byte list \<Rightarrow> error + int" where
  "File_Stat fault body =
     (case fault of Some err \<Rightarrow> Inl err | None \<Rightarrow> Inr (int (length body)))"

text \<open>
  \<^verbatim>\<open>os.Remove\<close> can fail like every other call, for instance on a system that refuses
  to remove a file that is still open: with a fault the file stays as it is, without one
  it is unlinked. The code drops what \<^verbatim>\<open>os.Remove\<close> returns, so the model returns the
  disk only.
\<close>

definition os_Remove :: "error option \<Rightarrow> disk \<Rightarrow> string \<Rightarrow> disk" where
  "os_Remove fault d p = (case fault of Some err \<Rightarrow> d | None \<Rightarrow> d(p := None))"

text \<open>
  An \<^verbatim>\<open>io.Reader\<close>: the bytes it still delivers and the error it ends with (\<open>None\<close> for
  \<^verbatim>\<open>io.EOF\<close>). Reading consumes the bytes.

  \<^verbatim>\<open>io.Copy\<close> into a file: the bytes written, the reader afterwards and the error. A write
  fault \<open>(n, err)\<close> makes the write fail with \<open>err\<close> once \<open>n\<close> bytes are in the file, if
  the stream is longer than that; otherwise the whole stream is written and the error is
  the one the stream ends with.
\<close>

record Reader =
  pending :: "byte list"
  failure :: "error option"

definition io_Copy :: "(nat \<times> error) option \<Rightarrow> Reader \<Rightarrow> byte list \<times> Reader \<times> error option" where
  "io_Copy fault src =
     (case fault of
        Some (n, err) \<Rightarrow>
          if n < length (pending src)
          then (take n (pending src), src\<lparr>pending := drop n (pending src)\<rparr>, Some err)
          else (pending src, src\<lparr>pending := []\<rparr>, failure src)
      | None \<Rightarrow> (pending src, src\<lparr>pending := []\<rparr>, failure src))"

section \<open>The cacher: Set\<close>

text \<open>
  The fields of \<open>goproxyCacher\<close>: \<open>settingCaches\<close> is the \<^verbatim>\<open>sync.Map\<close> from names to the
  paths of their staged files, \<open>startSetCacheOnce\<close> tells whether the \<^verbatim>\<open>sync.Once\<close> has
  fired. Calls are taken one after the other, so \<open>settingMutex\<close> has no field.
\<close>

record goproxyCacher =
  localCacheRoot :: string
  settingCaches :: "string \<rightharpoonup> string"
  startSetCacheOnce :: bool

text \<open>The requests the synchronizer sends to the object store, as it sends them.\<close>

datatype request =
    StatObjectRequest string string
  | PutObjectRequest string string "byte list" int PutObjectOptions

record world =
  gc :: goproxyCacher
  disk :: disk
  requests :: "request list"

definition Store :: "string \<Rightarrow> string \<Rightarrow> world \<Rightarrow> world" where
  "Store k v w = w\<lparr>gc := (gc w)\<lparr>settingCaches := (settingCaches (gc w))(k \<mapsto> v)\<rparr>\<rparr>"

definition Delete :: "string \<Rightarrow> world \<Rightarrow> world" where
  "Delete k w = w\<lparr>gc := (gc w)\<lparr>settingCaches := (settingCaches (gc w))(k := None)\<rparr>\<rparr>"

definition Remove :: "error option \<Rightarrow> string \<Rightarrow> world \<Rightarrow> world" where
  "Remove fault p w = w\<lparr>disk := os_Remove fault (disk w) p\<rparr>"

definition Do_startSetCache :: "world \<Rightarrow> world" where
  "Do_startSetCache w = w\<lparr>gc := (gc w)\<lparr>startSetCacheOnce := True\<rparr>\<rparr>"

record SetIO =
  stat_fault :: "error option"
  create_fault :: "error option"
  write_fault :: "(nat \<times> error) option"
  close_fault :: "error option"
  remove_fault :: "error option"

definition localCacheFileName :: "goproxyCacher \<Rightarrow> string \<Rightarrow> string" where
  "localCacheFileName c name =
     (let cacheNameChecksum = sha256_Sum256 (bytes name)
      in Join (localCacheRoot c) (EncodeToString cacheNameChecksum))"

text \<open>
  \<open>Set\<close> returns its error (\<open>None\<close> for nil), the world it leaves and the content reader
  as it leaves it.
\<close>

definition Set :: "SetIO \<Rightarrow> world \<Rightarrow> string \<Rightarrow> Reader \<Rightarrow> error option \<times> world \<times> Reader" where
  "Set io w0 name content =
     (let w = Do_startSetCache w0;
          fileName = localCacheFileName (gc w) name
      in case os_Stat (stat_fault io) (disk w) fileName of
           None \<Rightarrow> (None, w, content)
         | Some err \<Rightarrow>
             if \<not> errors_Is err ErrNotExist then (Some err, w, content)
             else
               case os_Create (create_fault io) (disk w) fileName of
                 Inl err \<Rightarrow> (Some err, w, content)
               | Inr created \<Rightarrow>
                   (case io_Copy (write_fault io) content of
                      (written, content', copied) \<Rightarrow>
                        let w' = w\<lparr>disk := created(fileName \<mapsto> written)\<rparr> in
                        case copied of
                          Some err \<Rightarrow> (Some err, Remove (remove_fault io) fileName w', content')
                        | None \<Rightarrow>
                            (case close_fault io of
                               Some err \<Rightarrow> (Some err, Remove (remove_fault io) fileName w', content')
                             | None \<Rightarrow> (None, Store name fileName w', content'))))"

section \<open>The synchronizer\<close>

record SyncIO =
  cancelled :: bool
  open_fault :: "error option"
  fstat_fault :: "error option"
  sync_remove_fault :: "error option"

text \<open>
  The function that \<open>startSetCache\<close> passes to \<^verbatim>\<open>settingCaches.Range\<close>, on one entry: the
  name \<open>k\<close> and the path \<open>v\<close> of its staged file. \<open>cancelled\<close> is
  \<^verbatim>\<open>base.Context.Err() != nil\<close>. It returns whether the range goes on, and the world.
  The endless loop of \<open>startSetCache\<close> around the range (sleep a second, return once
  cancelled, range again) has no definition here: the properties proved are those of one
  visit and of one range.
\<close>

definition startSetCache_visit :: "env \<Rightarrow> SyncIO \<Rightarrow> world \<Rightarrow> string \<Rightarrow> string \<Rightarrow> bool \<times> world" where
  "startSetCache_visit E io w k v =
     (if cancelled io then (False, w)
      else
        case os_Open (open_fault io) (disk w) v of
          Inl err \<Rightarrow> (True, if errors_Is err ErrNotExist then Delete k w else w)
        | Inr localCacheFile \<Rightarrow>
            (case File_Stat (fstat_fault io) localCacheFile of
               Inl err \<Rightarrow> (True, w)
             | Inr fileSize \<Rightarrow>
                 let name = k;
                     w1 = w\<lparr>requests := requests w @ [StatObjectRequest (qiniuKodoBucketName E) name]\<rparr>
                 in case StatObject (qiniuKodoClient E) (qiniuKodoBucketName E) name of
                      Inr info \<Rightarrow> (True, Remove (sync_remove_fault io) v (Delete k w1))
                    | Inl err \<Rightarrow>
                        if \<not> isMinIOObjectNotExist E err then (True, w1)
                        else
                          let contentType =
                                (if Ext name = ''.info'' then ''application/json; charset=utf-8''
                                 else if Ext name = ''.mod'' then ''text/plain; charset=utf-8''
                                 else if Ext name = ''.zip'' then ''application/zip''
                                 else []);
                              opts = \<lparr>ContentType = contentType,
                                      DisableMultipart = (fileSize < push_bit 20 256)\<rparr>;
                              w2 = w1\<lparr>requests := requests w1 @
                                     [PutObjectRequest (qiniuKodoBucketName E) name localCacheFile fileSize opts]\<rparr>
                          in case PutObject (qiniuKodoClient E) (qiniuKodoBucketName E) name
                                    localCacheFile fileSize opts of
                               None \<Rightarrow> (True, Remove (sync_remove_fault io) v (Delete k w2))
                             | Some err \<Rightarrow> (True, w2)))"

text \<open>
  \<^verbatim>\<open>Range\<close> over the entries in the order it happens to take them, each visit with its own
  faults; it stops when the function returns false.
\<close>

fun Range :: "env \<Rightarrow> world \<Rightarrow> (SyncIO \<times> string \<times> string) list \<Rightarrow> world" where
  "Range E w [] = w"
| "Range E w ((io, k, v) # entries) =
     (case startSetCache_visit E io w k v of
        (continue, w') \<Rightarrow> if continue then Range E w' entries else w')"

section \<open>The shutdown job\<close>

text \<open>
  The job added in \<open>init\<close>:
  \<^verbatim>\<open>for i := 0; i < 60; i++ { time.Sleep(time.Second); err := os.RemoveAll(root); if err == nil { break } }\<close>.
  \<open>removal i\<close> is what the call of \<^verbatim>\<open>os.RemoveAll\<close> in iteration \<open>i\<close> returns. The job
  leaves the list of what it did and whether the staging root is still there.
\<close>

datatype event = Sleep int | RemoveAll string

function shutdownJob :: "(nat \<Rightarrow> error option) \<Rightarrow> string \<Rightarrow> nat \<Rightarrow> event list \<times> bool \<Rightarrow> event list \<times> bool" where
  "shutdownJob removal root i (events, present) =
     (if i < 60 then
        let events' = events @ [Sleep Second, RemoveAll root]
        in case removal i of
             None \<Rightarrow> (events', False)
           | Some err \<Rightarrow> shutdownJob removal root (i + 1) (events', present)
      else (events, present))"
  by pat_completeness auto
termination
  by (relation "measure (\<lambda>(removal, root, i, s). 60 - i)") auto

declare shutdownJob.simps [simp del]

section \<open>An example store and configuration\<close>

text \<open>
  A store that holds one object, \<open>example.com/mod/@v/v1.0.0.zip\<close>, of a given size and
  entity tag, and answers 404 for every other name; a configuration with automatic
  redirection on from 1000 bytes, where 404 is what \<open>isMinIOObjectNotExist\<close> accepts; and
  the same store with a failing \<^verbatim>\<open>StatObject\<close> or \<^verbatim>\<open>GetObject\<close>.
\<close>

definition demo_client :: "int \<Rightarrow> string \<Rightarrow> Client" where
  "demo_client sz tag =
     \<lparr>StatObject = (\<lambda>bucket name.
        if name = ''example.com/mod/@v/v1.0.0.zip''
        then Inr \<lparr>Key = name, Size = sz, ETag = tag, LastModified = 1700000000\<rparr>
        else Inl (ErrorResponse 404)),
      GetObject = (\<lambda>bucket key.
        if key = ''example.com/mod/@v/v1.0.0.zip'' then Inr [0x50, 0x4b] else Inl (ErrorResponse 404)),
      PutObject = (\<lambda>bucket key body n opts. None),
      Presign = (\<lambda>httpMethod bucket key expires params. Inr (''https://kodo.example/'' @ key))\<rparr>"

definition demo_env :: "Client \<Rightarrow> env" where
  "demo_env c =
     \<lparr>qiniuKodoClient = c, qiniuKodoBucketName = ''goproxy'',
      isMinIOObjectNotExist = (\<lambda>err. err = ErrorResponse 404),
      goproxyAutoRedirect = True, goproxyAutoRedirectMinSize = 1000\<rparr>"

definition failing_stat :: "error \<Rightarrow> Client \<Rightarrow> Client" where
  "failing_stat err c = c\<lparr>StatObject := (\<lambda>bucket name. Inl err)\<rparr>"

definition failing_get :: "error \<Rightarrow> Client \<Rightarrow> Client" where
  "failing_get err c = c\<lparr>GetObject := (\<lambda>bucket key. Inl err)\<rparr>"

text \<open>
  A cacher that has staged nothing yet in an empty staging root, a content stream of four
  bytes, and a call during which no fault strikes.
\<close>

definition demo_world :: world where
  "demo_world =
     \<lparr>gc = \<lparr>localCacheRoot = ''/tmp/goproxy-china-local-caches1'',
             settingCaches = Map.empty, startSetCacheOnce = False\<rparr>,
      disk = Map.empty, requests = []\<rparr>"

definition demo_content :: Reader where
  "demo_content = \<lparr>pending = [0x50, 0x4b, 0x03, 0x04], failure = None\<rparr>"

definition no_faults :: SetIO where
  "no_faults = \<lparr>stat_fault = None, create_fault = None, write_fault = None, close_fault = None,
                 remove_fault = None\<rparr>"

text \<open>A content stream that breaks off after two bytes.\<close>

definition failing_content :: Reader where
  "failing_content = \<lparr>pending = [0x50, 0x4b], failure = Some (OtherError ''unexpected EOF'')\<rparr>"

text \<open>
  The world after the example content was staged for the example name, a visit of the
  synchronizer during which no fault strikes, and a staging root whose removal fails
  twice before it succeeds.
\<close>

definition demo_staged :: world where
  "demo_staged =
     Store ''example.com/mod/@v/v1.0.0.zip''
       (localCacheFileName (gc demo_world) ''example.com/mod/@v/v1.0.0.zip'')
       ((Do_startSetCache demo_world)
          \<lparr>disk := [localCacheFileName (gc demo_world) ''example.com/mod/@v/v1.0.0.zip''
                     \<mapsto> [0x50, 0x4b, 0x03, 0x04]]\<rparr>)"

definition no_sync_faults :: SyncIO where
  "no_sync_faults = \<lparr>cancelled = False, open_fault = None, fstat_fault = None,
                      sync_remove_fault = None\<rparr>"

definition flaky_removal :: "nat \<Rightarrow> error option" where
  "flaky_removal i = (if i < 2 then Some (OtherError ''directory not empty'') else None)"

section \<open>Properties of the library functions\<close>

lemma HasPrefix_iff_prefix: "HasPrefix s pre \<longleftrightarrow> prefix pre s"
proof
  assume "HasPrefix s pre"
  then have "pre = take (length pre) s" by (simp add: HasPrefix_def)
  then show "prefix pre s" by (metis take_is_prefix)
next
  assume "prefix pre s"
  then obtain t where "s = pre @ t" by (auto simp: prefix_def)
  then show "HasPrefix s pre" by (simp add: HasPrefix_def)
qed

lemma Contains_iff_sublist: "Contains s sub \<longleftrightarrow> sublist sub s"
proof (induction s)
  case Nil
  show ?case by (auto simp: HasPrefix_iff_prefix)
next
  case (Cons c s)
  show ?case by (simp add: Cons.IH HasPrefix_iff_prefix sublist_Cons_right)
qed

lemma Ext_loop_no_sep:
  "CHR ''/'' \<notin> set rs \<Longrightarrow> CHR ''.'' \<notin> set rs \<Longrightarrow>
   Ext_loop (rs @ CHR ''.'' # front) passed = CHR ''.'' # rev rs @ passed"
  by (induction rs arbitrary: passed) auto

lemma Ext_loop_suffix:
  "Ext_loop rs passed = e \<Longrightarrow> e \<noteq> [] \<Longrightarrow>
   \<exists>k. k < length rs \<and> e = rev (take (Suc k) rs) @ passed \<and> rs ! k = CHR ''.''
       \<and> CHR ''/'' \<notin> set (take k rs) \<and> CHR ''.'' \<notin> set (take k rs)"
proof (induction rs arbitrary: passed)
  case Nil
  then show ?case by simp
next
  case (Cons c rs)
  show ?case
  proof (cases "c = CHR ''.''")
    case True
    with Cons.prems show ?thesis by (intro exI [of _ 0]) auto
  next
    case False
    with Cons.prems have ns: "c \<noteq> CHR ''/''" and rec: "Ext_loop rs (c # passed) = e"
      by (auto split: if_splits)
    from Cons.IH [OF rec Cons.prems(2)] obtain k where
      k: "k < length rs" "e = rev (take (Suc k) rs) @ c # passed" "rs ! k = CHR ''.''"
         "CHR ''/'' \<notin> set (take k rs)" "CHR ''.'' \<notin> set (take k rs)"
      by blast
    with False ns show ?thesis by (intro exI [of _ "Suc k"]) auto
  qed
qed

lemma Ext_zip_iff_suffix: "Ext p = ''.zip'' \<longleftrightarrow> suffix ''.zip'' p"
proof
  assume e: "Ext p = ''.zip''"
  then have "Ext_loop (rev p) [] = ''.zip''" by (simp add: Ext_def)
  from Ext_loop_suffix [OF this] obtain k where "''.zip'' = rev (take (Suc k) (rev p)) @ []"
    by auto
  then have "''.zip'' = drop (length p - Suc k) p" by (simp add: take_rev)
  then show "suffix ''.zip'' p" by (metis suffix_drop)
next
  assume "suffix ''.zip'' p"
  then obtain s where p: "p = s @ ''.zip''" by (auto simp: suffix_def)
  have "Ext_loop (''piz'' @ CHR ''.'' # rev s) [] = CHR ''.'' # rev ''piz'' @ []"
    by (rule Ext_loop_no_sep) auto
  with p show "Ext p = ''.zip''" by (simp add: Ext_def)
qed

subsection \<open>Hexadecimal encoding and decoding\<close>

lemma nat_less_16_cases:
  "(k::nat) < 16 \<Longrightarrow> k \<in> {0,1,2,3,4,5,6,7,8,9,10,11,12,13,14,15}"
  by auto arith

lemma reverseHexTable_hextable:
  "k < 16 \<Longrightarrow> reverseHexTable (hextable ! k) = of_nat k"
  by (drule nat_less_16_cases) (auto simp: hextable_def reverseHexTable_def)

lemma nibble_hi: "unat (drop_bit 4 (v::byte)) < 16"
proof -
  have "unat (drop_bit 4 v) = unat v div 16" by (simp add: unat_drop_bit_eq) (simp add: drop_bit_eq_div)
  moreover have "unat v < 256" using unsigned_less [of v] by simp
  ultimately show ?thesis by simp
qed

lemma nibble_lo: "unat ((v::byte) AND 0x0f) < 16"
proof -
  have "unat (v AND 15) \<le> unat (15 :: byte)"
    by (rule word_and_le1 [THEN word_le_nat_alt [THEN iffD1]])
  then show ?thesis by simp
qed

lemma byte_le_15: "unat (n::byte) < 16 \<Longrightarrow> \<not> n > 0x0f"
  by (simp add: word_less_nat_alt not_less word_le_nat_alt)

lemma low_nibble_take_bit: "(v::byte) AND 0x0f = take_bit 4 v"
proof -
  have "(15::byte) = mask 4" by (simp add: mask_eq_exp_minus_1)
  then show ?thesis by (simp add: take_bit_eq_mask)
qed

lemma nibbles_join: "push_bit 4 (drop_bit 4 (v::byte)) OR (v AND 0x0f) = v"
  unfolding low_nibble_take_bit
  by (rule bit_word_eqI) (auto simp: bit_simps)

lemma DecodeString_append:
  "DecodeString (EncodeToString ds @ rest) =
     (ds @ fst (DecodeString rest), snd (DecodeString rest))"
proof (induction ds)
  case Nil
  show ?case by simp
next
  case (Cons v ds)
  have hi: "reverseHexTable (hextable ! unat (drop_bit 4 v)) = drop_bit 4 v"
    using reverseHexTable_hextable [OF nibble_hi [of v]] by simp
  have lo: "reverseHexTable (hextable ! unat (v AND 0x0f)) = v AND 0x0f"
    using reverseHexTable_hextable [OF nibble_lo [of v]] by simp
  show ?case
    using byte_le_15 [OF nibble_hi [of v]] byte_le_15 [OF nibble_lo [of v]]
    by (simp add: hi lo Cons.IH nibbles_join del: DecodeString.simps(1) add: DecodeString.simps(1) [of _ _ "EncodeToString ds @ rest"])
qed

lemma DecodeString_EncodeToString: "DecodeString (EncodeToString ds) = (ds, None)"
  using DecodeString_append [of ds "[]"] by simp

subsection \<open>The example request\<close>

lemma demo_name:
  "TrimPrefix (Clean ''/example.com/mod/@v/v1.0.0.zip'') ''/'' = ''example.com/mod/@v/v1.0.0.zip''"
  by (simp add: Clean_def TrimPrefix_def HasPrefix_def)

lemma demo_eligible:
  "isAutoRedirectableGoproxyCache (TrimPrefix (Clean ''/example.com/mod/@v/v1.0.0.zip'') ''/'')"
  unfolding demo_name by (simp add: isAutoRedirectableGoproxyCache_def HasPrefix_def Ext_def)

lemma demo_enabled: "goproxyAutoRedirect (demo_env c)"
  by (simp add: demo_env_def)

lemma Hour_seconds: "Hour = 3600 * Second"
  by (simp add: Hour_def Minute_def)

lemma DecodeString_valid:
  "\<forall>c \<in> set s. reverseHexTable c \<le> 0x0f \<Longrightarrow> even (length s) \<Longrightarrow>
   snd (DecodeString s) = None \<and> length (fst (DecodeString s)) = length s div 2"
proof (induction s rule: DecodeString.induct)
  case (1 p q src)
  from "1.prems" have digits: "\<not> reverseHexTable p > 0x0f" "\<not> reverseHexTable q > 0x0f"
    and rest: "\<forall>c \<in> set src. reverseHexTable c \<le> 0x0f" "even (length src)"
    by (auto simp: not_less)
  from "1.IH" [OF refl refl digits rest]
  have "snd (DecodeString src) = None" "length (fst (DecodeString src)) = length src div 2"
    by simp_all
  with digits show ?case by (cases "DecodeString src") (simp add: Let_def)
next
  case (2 p)
  then show ?case by simp
next
  case 3
  show ?case by simp
qed

subsection \<open>The entity tags of the examples\<close>

lemma md5_multipart_tag:
  "md5_Sum (bytes ''9b2cf535f27731c974343645a3985328-2'') =
     [33, 39, 147, 130, 66, 22, 16, 165, 35, 10, 224, 69, 59, 6, 232, 68]"
  by code_simp

lemma md5_kodo_tag:
  "md5_Sum (bytes ''Fh8xVqod2MQ1mocfI3hLl8ijCgXd'') =
     [67, 100, 93, 49, 18, 191, 86, 33, 11, 226, 213, 105, 148, 160, 16, 196]"
  by code_simp

lemma decode_multipart_tag:
  "DecodeString ''9b2cf535f27731c974343645a3985328-2'' =
     ([155, 44, 245, 53, 242, 119, 49, 201, 116, 52, 54, 69, 163, 152, 83, 40],
      Some (InvalidByteError 45))"
  by code_simp

lemma decode_digest_tag:
  "DecodeString ''9b2cf535f27731c974343645a3985328'' =
     ([155, 44, 245, 53, 242, 119, 49, 201, 116, 52, 54, 69, 163, 152, 83, 40], None)"
  by code_simp

lemma decode_kodo_tag:
  "DecodeString ''Fh8xVqod2MQ1mocfI3hLl8ijCgXd'' = ([], Some (InvalidByteError 104))"
  by code_simp

subsection \<open>The cacher's Set\<close>

lemma Do_startSetCache_proj [simp]:
  "disk (Do_startSetCache w) = disk w"
  "requests (Do_startSetCache w) = requests w"
  "settingCaches (gc (Do_startSetCache w)) = settingCaches (gc w)"
  "localCacheRoot (gc (Do_startSetCache w)) = localCacheRoot (gc w)"
  "startSetCacheOnce (gc (Do_startSetCache w))"
  "Do_startSetCache (Do_startSetCache w) = Do_startSetCache w"
  by (simp_all add: Do_startSetCache_def)

lemma localCacheFileName_root:
  "localCacheRoot c = localCacheRoot c' \<Longrightarrow> localCacheFileName c name = localCacheFileName c' name"
  by (simp add: localCacheFileName_def)

lemma Store_proj [simp]:
  "disk (Store k v w) = disk w"
  "requests (Store k v w) = requests w"
  "settingCaches (gc (Store k v w)) = (settingCaches (gc w))(k \<mapsto> v)"
  "localCacheRoot (gc (Store k v w)) = localCacheRoot (gc w)"
  "startSetCacheOnce (gc (Store k v w)) = startSetCacheOnce (gc w)"
  by (simp_all add: Store_def)

lemma Delete_proj [simp]:
  "disk (Delete k w) = disk w"
  "requests (Delete k w) = requests w"
  "settingCaches (gc (Delete k w)) = (settingCaches (gc w))(k := None)"
  "localCacheRoot (gc (Delete k w)) = localCacheRoot (gc w)"
  "startSetCacheOnce (gc (Delete k w)) = startSetCacheOnce (gc w)"
  by (simp_all add: Delete_def)

lemma Remove_proj [simp]:
  "disk (Remove None p w) = (disk w)(p := None)"
  "disk (Remove (Some err) p w) = disk w"
  "requests (Remove fault p w) = requests w"
  "gc (Remove fault p w) = gc w"
  by (simp_all add: Remove_def os_Remove_def)

text \<open>A call that finds the staged file.\<close>

lemma Set_staged:
  assumes "disk w (localCacheFileName (gc w) name) = Some body" and "stat_fault io = None"
  shows "Set io w name content = (None, Do_startSetCache w, content)"
proof -
  have "localCacheFileName (gc (Do_startSetCache w)) name = localCacheFileName (gc w) name"
    by (rule localCacheFileName_root) simp
  with assms show ?thesis by (simp add: Set_def Let_def os_Stat_def)
qed

text \<open>What a call leaves, branch by branch.\<close>

lemma Set_cases:
  assumes "Set io w name content = (result, w', content')"
  defines "p \<equiv> localCacheFileName (gc w) name"
  obtains
    (staged) "os_Stat (stat_fault io) (disk w) p = None"
      "result = None" "w' = Do_startSetCache w" "content' = content"
  | (stat_failed) err where "os_Stat (stat_fault io) (disk w) p = Some err" "err \<noteq> ErrNotExist"
      "result = Some err" "w' = Do_startSetCache w" "content' = content"
  | (create_failed) err where "os_Stat (stat_fault io) (disk w) p = Some ErrNotExist"
      "create_fault io = Some err"
      "result = Some err" "w' = Do_startSetCache w" "content' = content"
  | (copy_failed) err written where "os_Stat (stat_fault io) (disk w) p = Some ErrNotExist"
      "create_fault io = None" "io_Copy (write_fault io) content = (written, content', Some err)"
      "result = Some err"
      "w' = Remove (remove_fault io) p ((Do_startSetCache w)\<lparr>disk := (disk w)(p \<mapsto> written)\<rparr>)"
  | (close_failed) err written where "os_Stat (stat_fault io) (disk w) p = Some ErrNotExist"
      "create_fault io = None" "io_Copy (write_fault io) content = (written, content', None)"
      "close_fault io = Some err"
      "result = Some err"
      "w' = Remove (remove_fault io) p ((Do_startSetCache w)\<lparr>disk := (disk w)(p \<mapsto> written)\<rparr>)"
  | (stored) written where "os_Stat (stat_fault io) (disk w) p = Some ErrNotExist"
      "create_fault io = None" "io_Copy (write_fault io) content = (written, content', None)"
      "close_fault io = None"
      "result = None" "w' = Store name p ((Do_startSetCache w)\<lparr>disk := (disk w)(p \<mapsto> written)\<rparr>)"
proof -
  have p: "localCacheFileName (gc (Do_startSetCache w)) name = p"
    unfolding p_def by (rule localCacheFileName_root) simp
  show thesis
  proof (cases "os_Stat (stat_fault io) (disk w) p")
    case None
    with assms(1) p show thesis
      by (intro staged) (simp_all add: Set_def Let_def)
  next
    case (Some err)
    show thesis
    proof (cases "err = ErrNotExist")
      case False
      with Some assms(1) p show thesis
        by (intro stat_failed [of err]) (simp_all add: Set_def Let_def errors_Is_def)
    next
      case True
      note absent = Some [unfolded True]
      show thesis
      proof (cases "create_fault io")
        case (Some e)
        with absent assms(1) p show thesis
          by (intro create_failed [of e])
             (simp_all add: Set_def Let_def errors_Is_def os_Create_def)
      next
        case None
        obtain written rd copied where c: "io_Copy (write_fault io) content = (written, rd, copied)"
          by (cases "io_Copy (write_fault io) content") auto
        show thesis
        proof (cases copied)
          case (Some e)
          with absent None c assms(1) p show thesis
            by (intro copy_failed [of written e])
               (auto simp add: Set_def Let_def errors_Is_def os_Create_def)
        next
          case no_copy_error: None
          show thesis
          proof (cases "close_fault io")
            case (Some e)
            with absent None c no_copy_error assms(1) p show thesis
              by (intro close_failed [of written e])
                 (auto simp add: Set_def Let_def errors_Is_def os_Create_def)
          next
            case no_close_error: None
            with absent None c no_copy_error assms(1) p show thesis
              by (intro stored [of written])
                 (auto simp add: Set_def Let_def errors_Is_def os_Create_def)
          qed
        qed
      qed
    qed
  qed
qed

lemma demo_sha256:
  "EncodeToString (sha256_Sum256 (bytes ''example.com/mod/@v/v1.0.0.zip'')) =
     ''0d31d7c06ceefc37bcbd698b012934e6c04a4871724d429f81a6c37fa77de798''"
  by code_simp

lemma demo_path:
  "localCacheFileName (gc demo_world) ''example.com/mod/@v/v1.0.0.zip'' =
     ''/tmp/goproxy-china-local-caches1/0d31d7c06ceefc37bcbd698b012934e6c04a4871724d429f81a6c37fa77de798''"
  unfolding localCacheFileName_def Let_def demo_sha256
  by (simp add: demo_world_def Join_def Clean_def)

lemma Set_started:
  assumes "Set io w name content = (result, w', content')"
  shows "Do_startSetCache w' = w'" and "localCacheRoot (gc w') = localCacheRoot (gc w)"
  using assms
  by (cases rule: Set_cases; simp add: Do_startSetCache_def Store_def Remove_def)+

lemma Set_success_staged:
  assumes "Set io w name content = (None, w', content')"
  shows "disk w' (localCacheFileName (gc w) name) \<noteq> None"
  using assms
  by (cases rule: Set_cases) (auto simp: os_Stat_def split: option.splits)

lemma io_Copy_complete:
  "io_Copy fault src = (written, rd, None) \<Longrightarrow> written = pending src \<and> rd = src\<lparr>pending := []\<rparr>"
  by (auto simp: io_Copy_def split: option.splits if_splits)

lemma Set_fresh:
  assumes "disk w (localCacheFileName (gc w) name) = None"
    and "stat_fault io = None" "create_fault io = None" "write_fault io = None"
      "close_fault io = None"
    and "failure content = None"
  shows "Set io w name content
           = (None,
              Store name (localCacheFileName (gc w) name)
                ((Do_startSetCache w)
                   \<lparr>disk := (disk w)(localCacheFileName (gc w) name \<mapsto> pending content)\<rparr>),
              content\<lparr>pending := []\<rparr>)"
proof -
  have "localCacheFileName (gc (Do_startSetCache w)) name = localCacheFileName (gc w) name"
    by (rule localCacheFileName_root) simp
  with assms show ?thesis
    by (simp add: Set_def Let_def os_Stat_def os_Create_def io_Copy_def errors_Is_def)
qed

text \<open>After a call that returned nil, the next call changes nothing.\<close>

lemma Set_twice:
  assumes "Set io1 w name content1 = (None, w1, rest1)" and "stat_fault io2 = None"
  shows "Set io2 w1 name content2 = (None, w1, content2)
         \<and> disk w1 (localCacheFileName (gc w) name) \<noteq> None
         \<and> (disk w (localCacheFileName (gc w) name) = None \<longrightarrow>
              disk w1 = (disk w)(localCacheFileName (gc w) name \<mapsto> pending content1)
              \<and> settingCaches (gc w1) = (settingCaches (gc w))(name \<mapsto> localCacheFileName (gc w) name))
         \<and> (disk w (localCacheFileName (gc w) name) = None \<and> finite (dom (disk w)) \<longrightarrow>
              card (dom (disk w1)) = Suc (card (dom (disk w))))
         \<and> (disk w (localCacheFileName (gc w) name) \<noteq> None \<longrightarrow>
              Set io2 w name content2 = (None, Do_startSetCache w, content2))"
proof -
  let ?p = "localCacheFileName (gc w) name"
  have p1: "localCacheFileName (gc w1) name = ?p"
    by (rule localCacheFileName_root) (rule Set_started(2) [OF assms(1)])
  from Set_success_staged [OF assms(1)] obtain body where body: "disk w1 ?p = Some body"
    by auto
  have again: "Set io2 w1 name content2 = (None, w1, content2)"
    using Set_staged [of w1 name body io2 content2] body p1 assms(2) Set_started(1) [OF assms(1)]
    by simp
  have fresh: "disk w1 = (disk w)(?p \<mapsto> pending content1)
               \<and> settingCaches (gc w1) = (settingCaches (gc w))(name \<mapsto> ?p)"
    if absent: "disk w ?p = None"
    using assms(1)
  proof (cases rule: Set_cases)
    case staged
    with absent show ?thesis by (simp add: os_Stat_def split: option.splits)
  next
    case (stored written)
    from io_Copy_complete [OF stored(3)] stored(6) show ?thesis by simp
  qed simp_all
  have count: "card (dom (disk w1)) = Suc (card (dom (disk w)))"
    if absent: "disk w ?p = None" and fin: "finite (dom (disk w))"
  proof -
    from fresh [OF absent] have "dom (disk w1) = insert ?p (dom (disk w))" by simp
    moreover from absent have "?p \<notin> dom (disk w)" by (simp add: domIff)
    ultimately show ?thesis using fin by simp
  qed
  have already: "Set io2 w name content2 = (None, Do_startSetCache w, content2)"
    if "disk w ?p \<noteq> None"
    using that Set_staged [of w name _ io2 content2] assms(2) by auto
  from again body fresh count already show ?thesis by simp
qed

lemma demo_sha256_info:
  "EncodeToString (sha256_Sum256 (bytes ''example.com/mod/@v/v1.0.0.info'')) =
     ''fe8107f08e7a1c5342a851dc9c9d9b3b41a0bae2dc435a739bf613a13b473230''"
  by code_simp

lemma demo_path_info:
  "localCacheFileName (gc demo_world) ''example.com/mod/@v/v1.0.0.info'' =
     ''/tmp/goproxy-china-local-caches1/fe8107f08e7a1c5342a851dc9c9d9b3b41a0bae2dc435a739bf613a13b473230''"
  unfolding localCacheFileName_def Let_def demo_sha256_info
  by (simp add: demo_world_def Join_def Clean_def)

subsection \<open>The synchronizer's requests\<close>

lemma visit_grows:
  "\<exists>new. requests (snd (startSetCache_visit E io w k v)) = requests w @ new"
  by (auto simp: startSetCache_visit_def Let_def split: sum.splits option.splits)

lemma visit_uploads:
  "PutObjectRequest b n body sz opts
     \<in> set (drop (length (requests w)) (requests (snd (startSetCache_visit E io w k v))))
   \<Longrightarrow> b = qiniuKodoBucketName E \<and> n = k
       \<and> (\<exists>err. StatObject (qiniuKodoClient E) (qiniuKodoBucketName E) k = Inl err
                 \<and> isMinIOObjectNotExist E err)"
  by (auto simp: startSetCache_visit_def Let_def split: sum.splits option.splits if_splits)

lemma Range_grows:
  "\<exists>new. requests (Range E w entries) = requests w @ new"
proof (induction entries arbitrary: w)
  case Nil
  show ?case by simp
next
  case (Cons entry entries)
  obtain io k v where entry: "entry = (io, k, v)" by (cases entry) auto
  obtain continue w1 where visit: "startSetCache_visit E io w k v = (continue, w1)"
    by (cases "startSetCache_visit E io w k v") auto
  from visit_grows [of E io w k v] visit obtain new where new: "requests w1 = requests w @ new"
    by auto
  from Cons.IH [of w1] obtain more where "requests (Range E w1 entries) = requests w1 @ more"
    by auto
  with entry visit new show ?case by (cases continue) auto
qed

lemma Range_uploads:
  "PutObjectRequest b n body sz opts \<in> set (drop (length (requests w)) (requests (Range E w entries)))
   \<Longrightarrow> \<exists>err. StatObject (qiniuKodoClient E) b n = Inl err \<and> isMinIOObjectNotExist E err"
proof (induction entries arbitrary: w)
  case Nil
  then show ?case by simp
next
  case (Cons entry entries)
  let ?put = "PutObjectRequest b n body sz opts"
  obtain io k v where entry: "entry = (io, k, v)" by (cases entry) auto
  obtain continue w1 where visit: "startSetCache_visit E io w k v = (continue, w1)"
    by (cases "startSetCache_visit E io w k v") auto
  from visit_grows [of E io w k v] visit obtain new where new: "requests w1 = requests w @ new"
    by auto
  have here: "\<exists>err. StatObject (qiniuKodoClient E) b n = Inl err \<and> isMinIOObjectNotExist E err"
    if "?put \<in> set new"
  proof -
    from that new visit
    have "?put \<in> set (drop (length (requests w)) (requests (snd (startSetCache_visit E io w k v))))"
      by simp
    from visit_uploads [OF this] show ?thesis by auto
  qed
  show ?case
  proof (cases continue)
    case False
    with Cons.prems entry visit new have "?put \<in> set new" by simp
    then show ?thesis by (rule here)
  next
    case True
    from Range_grows [of E w1 entries] obtain more where
      more: "requests (Range E w1 entries) = requests w1 @ more" by auto
    from Cons.prems entry visit True new more
    have "?put \<in> set new \<or> ?put \<in> set more" by auto
    then show ?thesis
    proof
      assume "?put \<in> set new"
      then show ?thesis by (rule here)
    next
      assume "?put \<in> set more"
      with more have "?put \<in> set (drop (length (requests w1)) (requests (Range E w1 entries)))"
        by simp
      from Cons.IH [OF this] show ?thesis .
    qed
  qed
qed

lemma demo_staged_proj:
  "disk demo_staged = [localCacheFileName (gc demo_world) ''example.com/mod/@v/v1.0.0.zip''
                         \<mapsto> [0x50, 0x4b, 0x03, 0x04]]"
  "settingCaches (gc demo_staged) =
     [''example.com/mod/@v/v1.0.0.zip''
        \<mapsto> localCacheFileName (gc demo_world) ''example.com/mod/@v/v1.0.0.zip'']"
  "requests demo_staged = []"
  by (simp_all add: demo_staged_def demo_world_def)

lemma demo_staged_open:
  "os_Open (open_fault no_sync_faults) (disk demo_staged)
     (localCacheFileName (gc demo_world) ''example.com/mod/@v/v1.0.0.zip'') = Inr [0x50, 0x4b, 0x03, 0x04]"
  "File_Stat (fstat_fault no_sync_faults) [0x50, 0x4b, 0x03, 0x04] = Inr 4"
  "\<not> cancelled no_sync_faults"
  "sync_remove_fault no_sync_faults = None"
  by (simp_all add: os_Open_def File_Stat_def no_sync_faults_def demo_staged_proj)

lemma demo_Ext: "Ext ''example.com/mod/@v/v1.0.0.zip'' = ''.zip''"
  by (simp add: Ext_def)

subsection \<open>The shutdown job\<close>

lemma shutdownJob_failed_attempt:
  "i < 60 \<Longrightarrow> removal i = Some err \<Longrightarrow>
   shutdownJob removal root i (events, present)
     = shutdownJob removal root (Suc i) (events @ [Sleep Second, RemoveAll root], present)"
  by (simp add: shutdownJob.simps [of _ _ i])

lemma shutdownJob_success:
  "i < 60 \<Longrightarrow> removal i = None \<Longrightarrow>
   shutdownJob removal root i (events, present) = (events @ [Sleep Second, RemoveAll root], False)"
  by (simp add: shutdownJob.simps [of _ _ i])

lemma shutdownJob_budget_spent:
  "shutdownJob removal root 60 (events, present) = (events, present)"
  by (simp add: shutdownJob.simps [of _ _ 60])

lemma shutdownJob_first_success:
  assumes "i + d = k" "k < 60" "removal k = None" "\<forall>j. i \<le> j \<and> j < k \<longrightarrow> removal j \<noteq> None"
  shows "shutdownJob removal root i (events, present)
           = (events @ concat (replicate (Suc d) [Sleep Second, RemoveAll root]), False)"
  using assms
proof (induction d arbitrary: i events)
  case 0
  then show ?case by (simp add: shutdownJob_success)
next
  case (Suc d)
  then have i60: "i < 60" and "i < k" by simp_all
  with Suc.prems obtain err where err: "removal i = Some err" by auto
  have rest: "shutdownJob removal root (Suc i) (events @ [Sleep Second, RemoveAll root], present)
          = ((events @ [Sleep Second, RemoveAll root])
              @ concat (replicate (Suc d) [Sleep Second, RemoveAll root]), False)"
    using Suc.prems by (intro Suc.IH) auto
  show ?case
    unfolding shutdownJob_failed_attempt [of i removal err, OF i60 err] rest by simp
qed

lemma shutdownJob_no_success:
  assumes "i + d = 60" "\<forall>j. i \<le> j \<and> j < 60 \<longrightarrow> removal j \<noteq> None"
  shows "shutdownJob removal root i (events, present)
           = (events @ concat (replicate d [Sleep Second, RemoveAll root]), present)"
  using assms
proof (induction d arbitrary: i events)
  case 0
  then show ?case by (simp add: shutdownJob_budget_spent)
next
  case (Suc d)
  then have i60: "i < 60" by simp
  with Suc.prems obtain err where err: "removal i = Some err" by auto
  have rest: "shutdownJob removal root (Suc i) (events @ [Sleep Second, RemoveAll root], present)
          = ((events @ [Sleep Second, RemoveAll root])
              @ concat (replicate d [Sleep Second, RemoveAll root]), present)"
    using Suc.prems by (intro Suc.IH) auto
  show ?case
    unfolding shutdownJob_failed_attempt [of i removal err, OF i60 err] rest by simp
qed

lemma shutdownJob_first:
  assumes "k < 60" "removal k = None" "\<forall>j < k. removal j \<noteq> None"
  shows "shutdownJob removal root 0 ([], True)
        = (concat (replicate (Suc k) [Sleep Second, RemoveAll root]), False)"
proof -
  from assms(3) have "\<forall>j. 0 \<le> j \<and> j < k \<longrightarrow> removal j \<noteq> None" by blast
  from shutdownJob_first_success [of 0 k k removal root "[]" True, OF _ assms(1) assms(2) this]
  show ?thesis by (simp only: add_0 append_Nil)
qed

lemma shutdownJob_none:
  assumes "\<forall>j < 60. removal j \<noteq> None"
  shows "shutdownJob removal root 0 ([], True)
        = (concat (replicate 60 [Sleep Second, RemoveAll root]), True)"
proof -
  from assms have "\<forall>j. 0 \<le> j \<and> j < 60 \<longrightarrow> removal j \<noteq> None" by blast
  from shutdownJob_no_success [of 0 60 removal root "[]" True, OF _ this]
  show ?thesis by (simp only: add_0 append_Nil)
qed

lemma first_success_exists:
  assumes "\<exists>j < (60::nat). removal j = None"
  shows "\<exists>k < 60. removal k = None \<and> (\<forall>j < k. removal j \<noteq> None)"
proof -
  from assms obtain j where j: "j < 60" "removal j = None" by blast
  let ?k = "LEAST j. removal j = None"
  have 1: "removal ?k = None" using j(2) by (rule LeastI)
  have "?k \<le> j" using j(2) by (rule Least_le)
  then have 2: "?k < 60" using j(1) by (rule le_less_trans)
  have 3: "\<forall>i < ?k. removal i \<noteq> None" using not_less_Least by blast
  from 1 2 3 show ?thesis by blast
qed

section \<open>Claims\<close>

text \<open>
  C5. For every name, \<open>isAutoRedirectableGoproxyCache name\<close> is true exactly when the name
  does not start with \<open>sumdb/\<close>, has \<open>/@v/\<close> somewhere inside it, and ends with the
  extension \<open>.zip\<close> (\<^verbatim>\<open>path.Ext\<close> is \<open>.zip\<close> exactly for the names that end so). It is true for \<open>example.com/mod/@v/v1.0.0.zip\<close>, false for
  \<open>sumdb/example.com/lookup/mod@v1.0.0\<close> and false for \<open>example.com/mod/@v/v1.0.0.info\<close>.
\<close>

theorem isAutoRedirectableGoproxyCache_iff:
  "(isAutoRedirectableGoproxyCache name \<longleftrightarrow>
      (\<not> prefix ''sumdb/'' name \<and> sublist ''/@v/'' name \<and> suffix ''.zip'' name))
   \<and> (Ext name = ''.zip'' \<longleftrightarrow> suffix ''.zip'' name)
   \<and> isAutoRedirectableGoproxyCache ''example.com/mod/@v/v1.0.0.zip''
   \<and> \<not> isAutoRedirectableGoproxyCache ''sumdb/example.com/lookup/mod@v1.0.0''
   \<and> \<not> isAutoRedirectableGoproxyCache ''example.com/mod/@v/v1.0.0.info''"
proof -
  have general: "isAutoRedirectableGoproxyCache name \<longleftrightarrow>
      (\<not> prefix ''sumdb/'' name \<and> sublist ''/@v/'' name \<and> suffix ''.zip'' name)"
    by (simp add: isAutoRedirectableGoproxyCache_def HasPrefix_iff_prefix
        Contains_iff_sublist Ext_zip_iff_suffix)
  have yes: "isAutoRedirectableGoproxyCache ''example.com/mod/@v/v1.0.0.zip''"
    by (simp add: isAutoRedirectableGoproxyCache_def HasPrefix_def Ext_def)
  have no_sumdb: "\<not> isAutoRedirectableGoproxyCache ''sumdb/example.com/lookup/mod@v1.0.0''"
    by (simp add: isAutoRedirectableGoproxyCache_def HasPrefix_def)
  have no_info: "\<not> isAutoRedirectableGoproxyCache ''example.com/mod/@v/v1.0.0.info''"
    by (simp add: isAutoRedirectableGoproxyCache_def Ext_def)
  from general Ext_zip_iff_suffix [of name] yes no_sumdb no_info show ?thesis by blast
qed

text \<open>
  C4. Take a request whose cleaned name is eligible, with automatic redirection on and the
  object found by \<^verbatim>\<open>StatObject\<close>. When the object's size is strictly below the configured
  minimum the request goes to the proxy and nothing is redirected. When the size is at
  least the minimum the handler asks for a pre-signed URL for the object's key, valid
  604800 seconds, which is 7 * 24 hours, with the one extra query parameter
  \<open>response-cache-control\<close> = \<open>public, max-age=604800\<close>, and redirects to the URL it gets
  (when the signing itself fails, that error is returned). The example is the size 999
  against the minimum 1000, proxied, and the size 1000, redirected.
\<close>

theorem hGoproxy_redirect_threshold:
  assumes "goproxyAutoRedirect E"
    and "isAutoRedirectableGoproxyCache (TrimPrefix (Clean rawPath) ''/'')"
    and "StatObject (qiniuKodoClient E) (qiniuKodoBucketName E) (TrimPrefix (Clean rawPath) ''/'')
           = Inr info"
  shows "(if Size info < goproxyAutoRedirectMinSize E
          then hGoproxy E httpMethod rawPath = ServeHTTP
          else hGoproxy E httpMethod rawPath =
                 (case Presign (qiniuKodoClient E) httpMethod (qiniuKodoBucketName E) (Key info)
                         (604800 * Second)
                         [(''response-cache-control'', [''public, max-age=604800''])] of
                    Inl err \<Rightarrow> ReturnError err
                  | Inr u \<Rightarrow> Redirect u))
         \<and> 604800 * Second = 7 * 24 * Hour"
  using assms by (simp add: hGoproxy_def Hour_seconds)

theorem hGoproxy_redirect_threshold_witness:
  "hGoproxy (demo_env (demo_client 999 [])) ''GET'' ''/example.com/mod/@v/v1.0.0.zip'' = ServeHTTP
   \<and> hGoproxy (demo_env (demo_client 1000 [])) ''GET'' ''/example.com/mod/@v/v1.0.0.zip''
       = Redirect ''https://kodo.example/example.com/mod/@v/v1.0.0.zip''"
proof -
  let ?p = "''/example.com/mod/@v/v1.0.0.zip''"
  have s: "StatObject (qiniuKodoClient (demo_env (demo_client sz [])))
             (qiniuKodoBucketName (demo_env (demo_client sz []))) (TrimPrefix (Clean ?p) ''/'')
           = Inr \<lparr>Key = ''example.com/mod/@v/v1.0.0.zip'', Size = sz, ETag = [],
                  LastModified = 1700000000\<rparr>" for sz
    unfolding demo_name by (simp add: demo_env_def demo_client_def)
  from hGoproxy_redirect_threshold [OF demo_enabled demo_eligible s [of 999], of "''GET''"]
       hGoproxy_redirect_threshold [OF demo_enabled demo_eligible s [of 1000], of "''GET''"]
  show ?thesis by (simp add: demo_env_def demo_client_def)
qed

text \<open>
  C10. Take a request whose cleaned name is eligible, with automatic redirection on, and
  let \<^verbatim>\<open>StatObject\<close> fail with an error. When the error is not the object-not-found one, the
  handler returns that very error: the request is neither proxied nor redirected. The
  request is proxied exactly when the error is the object-not-found one.
\<close>

theorem hGoproxy_stat_error:
  assumes "goproxyAutoRedirect E"
    and "isAutoRedirectableGoproxyCache (TrimPrefix (Clean rawPath) ''/'')"
    and "StatObject (qiniuKodoClient E) (qiniuKodoBucketName E) (TrimPrefix (Clean rawPath) ''/'')
           = Inl err"
  shows "hGoproxy E httpMethod rawPath =
           (if isMinIOObjectNotExist E err then ServeHTTP else ReturnError err)
         \<and> (hGoproxy E httpMethod rawPath = ServeHTTP \<longleftrightarrow> isMinIOObjectNotExist E err)
         \<and> (\<forall>u. hGoproxy E httpMethod rawPath \<noteq> Redirect u)"
  using assms by (simp add: hGoproxy_def)

theorem hGoproxy_stat_error_witness:
  "hGoproxy (demo_env (failing_stat (OtherError ''dial tcp: i/o timeout'') (demo_client 5000 [])))
      ''GET'' ''/example.com/mod/@v/v1.0.0.zip''
     = ReturnError (OtherError ''dial tcp: i/o timeout'')
   \<and> hGoproxy (demo_env (failing_stat (ErrorResponse 404) (demo_client 5000 [])))
      ''GET'' ''/example.com/mod/@v/v1.0.0.zip'' = ServeHTTP"
proof -
  let ?p = "''/example.com/mod/@v/v1.0.0.zip''"
  have s: "StatObject (qiniuKodoClient (demo_env (failing_stat e c)))
             (qiniuKodoBucketName (demo_env (failing_stat e c))) (TrimPrefix (Clean ?p) ''/'') = Inl e"
    for e c by (simp add: demo_env_def failing_stat_def)
  from hGoproxy_stat_error [OF demo_enabled demo_eligible
           s [of "OtherError ''dial tcp: i/o timeout''" "demo_client 5000 []"], where httpMethod = "''GET''"]
       hGoproxy_stat_error [OF demo_enabled demo_eligible
           s [of "ErrorResponse 404" "demo_client 5000 []"], where httpMethod = "''GET''"]
  show ?thesis by (simp add: demo_env_def)
qed

text \<open>
  C6. For every name: when \<^verbatim>\<open>StatObject\<close> fails with the object-not-found error, \<open>Get\<close>
  fails with \<^verbatim>\<open>fs.ErrNotExist\<close>; when it fails with any other error, \<open>Get\<close> fails with that
  same error; and when the object is found but \<^verbatim>\<open>GetObject\<close> fails, \<open>Get\<close> fails with the
  error of \<^verbatim>\<open>GetObject\<close>, whatever it is. A failing \<open>Get\<close> returns no reader.
\<close>

theorem Get_errors:
  "(StatObject (qiniuKodoClient E) (qiniuKodoBucketName E) name = Inl err
      \<and> isMinIOObjectNotExist E err \<longrightarrow> Get E name = Inl ErrNotExist)
   \<and> (StatObject (qiniuKodoClient E) (qiniuKodoBucketName E) name = Inl err
      \<and> \<not> isMinIOObjectNotExist E err \<longrightarrow> Get E name = Inl err)
   \<and> (StatObject (qiniuKodoClient E) (qiniuKodoBucketName E) name = Inr info
      \<and> GetObject (qiniuKodoClient E) (qiniuKodoBucketName E) (Key info) = Inl err
      \<longrightarrow> Get E name = Inl err)"
  by (simp add: Get_def Let_def)

theorem Get_errors_witness:
  "Get (demo_env (failing_stat (ErrorResponse 404) (demo_client 5000 [])))
       ''example.com/mod/@v/v1.0.0.zip'' = Inl ErrNotExist
   \<and> Get (demo_env (failing_stat (ErrorResponse 503) (demo_client 5000 [])))
       ''example.com/mod/@v/v1.0.0.zip'' = Inl (ErrorResponse 503)
   \<and> Get (demo_env (failing_get (ErrorResponse 404) (demo_client 5000 [])))
       ''example.com/mod/@v/v1.0.0.zip'' = Inl (ErrorResponse 404)"
  using Get_errors [where E = "demo_env (failing_stat (ErrorResponse 404) (demo_client 5000 []))"
          and name = "''example.com/mod/@v/v1.0.0.zip''" and err = "ErrorResponse 404"]
        Get_errors [where E = "demo_env (failing_stat (ErrorResponse 503) (demo_client 5000 []))"
          and name = "''example.com/mod/@v/v1.0.0.zip''" and err = "ErrorResponse 503"]
        Get_errors [where E = "demo_env (failing_get (ErrorResponse 404) (demo_client 5000 []))"
          and name = "''example.com/mod/@v/v1.0.0.zip''" and err = "ErrorResponse 404"
          and info = "\<lparr>Key = ''example.com/mod/@v/v1.0.0.zip'', Size = 5000, ETag = [],
                         LastModified = 1700000000\<rparr>"]
  by (simp add: demo_env_def failing_stat_def failing_get_def demo_client_def)

text \<open>
  C2, as the code has it. Let \<^verbatim>\<open>StatObject\<close> find the object and \<^verbatim>\<open>GetObject\<close> open it. Then
  \<open>Get\<close> succeeds whatever the entity tag looks like, and its checksum is decided by the
  number of bytes that \<^verbatim>\<open>hex.DecodeString\<close> hands back, the decoding error being dropped:
  \<^item> a tag of 32 hexadecimal digits decodes without error and the checksum is exactly the
    16 decoded bytes; in particular the tag \<open>EncodeToString digest\<close> of a 16-byte digest
    gives back \<open>digest\<close>;
  \<^item> when the decoder hands back a number of bytes other than 16, the checksum is the MD5
    sum of the bytes of the tag string;
  \<^item> when the decoder hands back exactly 16 bytes, the checksum is those bytes, also when
    the decoding failed after them (32 digits followed by something that is no pair of
    digits, as in the tag \<open>9b2cf535f27731c974343645a3985328-2\<close> of a multipart upload).
\<close>

theorem Get_checksum:
  assumes "StatObject (qiniuKodoClient E) (qiniuKodoBucketName E) name = Inr info"
    and "GetObject (qiniuKodoClient E) (qiniuKodoBucketName E) (Key info) = Inr object"
  shows "\<exists>r. Get E name = Inr r
           \<and> (length (ETag info) = 32 \<and> (\<forall>c \<in> set (ETag info). reverseHexTable c \<le> 0x0f)
                \<longrightarrow> DecodeString (ETag info) = (checksum r, None))
           \<and> (length digest = 16 \<and> ETag info = EncodeToString digest \<longrightarrow> checksum r = digest)
           \<and> (length (fst (DecodeString (ETag info))) \<noteq> 16
                \<longrightarrow> checksum r = md5_Sum (bytes (ETag info)))
           \<and> (length (fst (DecodeString (ETag info))) = 16
                \<longrightarrow> checksum r = fst (DecodeString (ETag info)))"
proof -
  let ?tag = "ETag info"
  let ?dec = "fst (DecodeString ?tag)"
  let ?sum = "if length ?dec \<noteq> md5_Size then md5_Sum (bytes ?tag) else ?dec"
  let ?r = "\<lparr>ReadSeekCloser = object, modTime = LastModified info, checksum = ?sum\<rparr>"
  from assms have result: "Get E name = Inr ?r"
    by (simp add: Get_def Let_def)
  have valid: "DecodeString ?tag = (?sum, None)"
    if "length ?tag = 32" "\<forall>c \<in> set ?tag. reverseHexTable c \<le> 0x0f"
  proof -
    from DecodeString_valid [OF that(2)] that(1)
    have "snd (DecodeString ?tag) = None" "length ?dec = 16" by simp_all
    then show ?thesis by (simp add: md5_Size_def prod_eq_iff)
  qed
  have encoded: "?sum = digest" if "length digest = 16" "?tag = EncodeToString digest"
    using that by (simp add: DecodeString_EncodeToString md5_Size_def)
  from result valid encoded show ?thesis
    by (intro exI [of _ ?r]) (simp add: md5_Size_def)
qed

theorem Get_checksum_witness:
  "Get (demo_env (demo_client 5000 ''9b2cf535f27731c974343645a3985328''))
       ''example.com/mod/@v/v1.0.0.zip''
     = Inr \<lparr>ReadSeekCloser = [0x50, 0x4b], modTime = 1700000000,
            checksum = [155, 44, 245, 53, 242, 119, 49, 201, 116, 52, 54, 69, 163, 152, 83, 40]\<rparr>
   \<and> Get (demo_env (demo_client 5000 ''Fh8xVqod2MQ1mocfI3hLl8ijCgXd''))
       ''example.com/mod/@v/v1.0.0.zip''
     = Inr \<lparr>ReadSeekCloser = [0x50, 0x4b], modTime = 1700000000,
            checksum = [67, 100, 93, 49, 18, 191, 86, 33, 11, 226, 213, 105, 148, 160, 16, 196]\<rparr>"
proof -
  let ?n = "''example.com/mod/@v/v1.0.0.zip''"
  let ?E = "\<lambda>tag. demo_env (demo_client 5000 tag)"
  let ?info = "\<lambda>tag. \<lparr>Key = ?n, Size = 5000, ETag = tag, LastModified = 1700000000\<rparr>"
  have stat: "StatObject (qiniuKodoClient (?E tag)) (qiniuKodoBucketName (?E tag)) ?n = Inr (?info tag)"
    for tag by (simp add: demo_env_def demo_client_def)
  have get: "GetObject (qiniuKodoClient (?E tag)) (qiniuKodoBucketName (?E tag)) (Key (?info tag))
               = Inr [0x50, 0x4b]"
    for tag by (simp add: demo_env_def demo_client_def)
  from Get_checksum [OF stat get, of "''9b2cf535f27731c974343645a3985328''"]
  obtain r1 where r1: "Get (?E ''9b2cf535f27731c974343645a3985328'') ?n = Inr r1"
    "checksum r1 = [155, 44, 245, 53, 242, 119, 49, 201, 116, 52, 54, 69, 163, 152, 83, 40]"
    by (auto simp add: decode_digest_tag simp del: DecodeString.simps)
  from Get_checksum [OF stat get, of "''Fh8xVqod2MQ1mocfI3hLl8ijCgXd''"]
  obtain r2 where r2: "Get (?E ''Fh8xVqod2MQ1mocfI3hLl8ijCgXd'') ?n = Inr r2"
    "checksum r2 = [67, 100, 93, 49, 18, 191, 86, 33, 11, 226, 213, 105, 148, 160, 16, 196]"
    by (auto simp add: decode_kodo_tag md5_kodo_tag simp del: DecodeString.simps)
  from r1 r2 show ?thesis
    by (auto simp: Get_def Let_def demo_env_def demo_client_def split: sum.splits)
qed

theorem Get_checksum_counterexample:
  "snd (DecodeString ''9b2cf535f27731c974343645a3985328-2'') = Some (InvalidByteError 45)
   \<and> Get (demo_env (demo_client 5000 ''9b2cf535f27731c974343645a3985328-2''))
         ''example.com/mod/@v/v1.0.0.zip''
       = Inr \<lparr>ReadSeekCloser = [0x50, 0x4b], modTime = 1700000000,
              checksum = [155, 44, 245, 53, 242, 119, 49, 201, 116, 52, 54, 69, 163, 152, 83, 40]\<rparr>
   \<and> md5_Sum (bytes ''9b2cf535f27731c974343645a3985328-2'')
       = [33, 39, 147, 130, 66, 22, 16, 165, 35, 10, 224, 69, 59, 6, 232, 68]
   \<and> [155, 44, 245, 53, 242, 119, 49, 201, 116, 52, 54, 69, 163, 152, 83, 40]
       \<noteq> md5_Sum (bytes ''9b2cf535f27731c974343645a3985328-2'')"
  by (simp add: Get_def Let_def demo_env_def demo_client_def decode_multipart_tag
        md5_multipart_tag md5_Size_def del: DecodeString.simps)

text \<open>
  C1. Take a name with no staged file, a first \<open>Set\<close> for it during which no fault strikes
  and whose content stream ends without error, and a second \<open>Set\<close> for it during which
  \<^verbatim>\<open>os.Stat\<close> does not fail. Then the first call returns nil and stages: it puts the whole
  content into the file at the path derived from the name and stores the entry from the
  name to that path; this holds whether or not the synchronizer was started before. The
  second call returns nil, leaves its content stream unread and changes neither the disk
  nor the registry. So after the two calls the disk holds exactly one file more than
  before, the one at that path, and the registry has exactly the one entry for the name.
  More generally, after any \<open>Set\<close> that returned nil the staged file is on disk and the
  next \<open>Set\<close> for the name returns nil without reading and without changing anything; and
  a \<open>Set\<close> that finds the staged file of its name returns nil at once.
\<close>

theorem Set_idempotent:
  "(disk w (localCacheFileName (gc w) name) = None
      \<and> stat_fault io1 = None \<and> create_fault io1 = None \<and> write_fault io1 = None
      \<and> close_fault io1 = None \<and> failure content1 = None \<and> stat_fault io2 = None \<longrightarrow>
    (\<exists>w1. Set io1 w name content1 = (None, w1, content1\<lparr>pending := []\<rparr>)
        \<and> Set io2 w1 name content2 = (None, w1, content2)
        \<and> disk w1 = (disk w)(localCacheFileName (gc w) name \<mapsto> pending content1)
        \<and> settingCaches (gc w1)
            = (settingCaches (gc w))(name \<mapsto> localCacheFileName (gc w) name)
        \<and> dom (disk w1) = insert (localCacheFileName (gc w) name) (dom (disk w))
        \<and> localCacheFileName (gc w) name \<notin> dom (disk w)
        \<and> dom (settingCaches (gc w1)) = insert name (dom (settingCaches (gc w)))
        \<and> (finite (dom (disk w)) \<longrightarrow> card (dom (disk w1)) = Suc (card (dom (disk w))))))
   \<and> (Set io1 w name content1 = (None, w', rest1) \<and> stat_fault io2 = None \<longrightarrow>
        Set io2 w' name content2 = (None, w', content2)
        \<and> disk w' (localCacheFileName (gc w) name) \<noteq> None)
   \<and> (disk w (localCacheFileName (gc w) name) \<noteq> None \<and> stat_fault io2 = None \<longrightarrow>
        Set io2 w name content2 = (None, Do_startSetCache w, content2))"
proof (intro conjI impI)
  let ?p = "localCacheFileName (gc w) name"
  let ?w1 = "Store name ?p ((Do_startSetCache w)\<lparr>disk := (disk w)(?p \<mapsto> pending content1)\<rparr>)"
  assume fresh: "disk w ?p = None
      \<and> stat_fault io1 = None \<and> create_fault io1 = None \<and> write_fault io1 = None
      \<and> close_fault io1 = None \<and> failure content1 = None \<and> stat_fault io2 = None"
  then have first: "Set io1 w name content1 = (None, ?w1, content1\<lparr>pending := []\<rparr>)"
    by (intro Set_fresh) simp_all
  from fresh have io2: "stat_fault io2 = None" and absent: "disk w ?p = None" by simp_all
  from Set_twice [OF first io2, of content2]
  have second: "Set io2 ?w1 name content2 = (None, ?w1, content2)" by blast
  have count: "card (dom (disk ?w1)) = Suc (card (dom (disk w)))" if "finite (dom (disk w))"
    using that absent by (simp add: domIff)
  from absent have notin: "?p \<notin> dom (disk w)" by (simp add: domIff)
  from first second count notin
  show "\<exists>w1. Set io1 w name content1 = (None, w1, content1\<lparr>pending := []\<rparr>)
        \<and> Set io2 w1 name content2 = (None, w1, content2)
        \<and> disk w1 = (disk w)(?p \<mapsto> pending content1)
        \<and> settingCaches (gc w1) = (settingCaches (gc w))(name \<mapsto> ?p)
        \<and> dom (disk w1) = insert ?p (dom (disk w))
        \<and> ?p \<notin> dom (disk w)
        \<and> dom (settingCaches (gc w1)) = insert name (dom (settingCaches (gc w)))
        \<and> (finite (dom (disk w)) \<longrightarrow> card (dom (disk w1)) = Suc (card (dom (disk w))))"
    by (intro exI [of _ ?w1]) simp
next
  assume nil: "Set io1 w name content1 = (None, w', rest1) \<and> stat_fault io2 = None"
  then have first: "Set io1 w name content1 = (None, w', rest1)" and io2: "stat_fault io2 = None"
    by simp_all
  from Set_twice [OF first io2, of content2]
  show "Set io2 w' name content2 = (None, w', content2)" by blast
  from Set_twice [OF first io2, of content2]
  show "disk w' (localCacheFileName (gc w) name) \<noteq> None" by blast
next
  assume "disk w (localCacheFileName (gc w) name) \<noteq> None \<and> stat_fault io2 = None"
  then obtain body where "disk w (localCacheFileName (gc w) name) = Some body"
    and "stat_fault io2 = None" by auto
  then show "Set io2 w name content2 = (None, Do_startSetCache w, content2)"
    by (rule Set_staged)
qed

theorem Set_idempotent_witness:
  "Set no_faults demo_world ''example.com/mod/@v/v1.0.0.zip'' demo_content
     = (None, demo_staged, demo_content\<lparr>pending := []\<rparr>)
   \<and> Set no_faults demo_staged ''example.com/mod/@v/v1.0.0.zip'' demo_content
     = (None, demo_staged, demo_content)
   \<and> disk demo_staged
     = [''/tmp/goproxy-china-local-caches1/0d31d7c06ceefc37bcbd698b012934e6c04a4871724d429f81a6c37fa77de798''
          \<mapsto> [0x50, 0x4b, 0x03, 0x04]]
   \<and> card (dom (disk demo_staged)) = 1
   \<and> dom (settingCaches (gc demo_staged)) = {''example.com/mod/@v/v1.0.0.zip''}
   \<and> startSetCacheOnce (gc demo_staged)
   \<and> fst (Set no_faults demo_staged ''example.com/mod/@v/v1.0.0.info'' demo_content) = None
   \<and> Set no_faults
        (fst (snd (Set no_faults demo_staged ''example.com/mod/@v/v1.0.0.info'' demo_content)))
        ''example.com/mod/@v/v1.0.0.info'' demo_content
     = (None, fst (snd (Set no_faults demo_staged ''example.com/mod/@v/v1.0.0.info'' demo_content)),
        demo_content)
   \<and> card (dom (disk
        (fst (snd (Set no_faults demo_staged ''example.com/mod/@v/v1.0.0.info'' demo_content))))) = 2
   \<and> dom (settingCaches (gc
        (fst (snd (Set no_faults demo_staged ''example.com/mod/@v/v1.0.0.info'' demo_content)))))
     = {''example.com/mod/@v/v1.0.0.zip'', ''example.com/mod/@v/v1.0.0.info''}"
proof -
  let ?zip = "''example.com/mod/@v/v1.0.0.zip''"
  let ?info = "''example.com/mod/@v/v1.0.0.info''"
  have nf: "stat_fault no_faults = None" "create_fault no_faults = None"
    "write_fault no_faults = None" "close_fault no_faults = None" "failure demo_content = None"
    by (simp_all add: no_faults_def demo_content_def)
  have pending: "pending demo_content = [0x50, 0x4b, 0x03, 0x04]"
    by (simp add: demo_content_def)
  have empty: "disk demo_world = Map.empty" "settingCaches (gc demo_world) = Map.empty"
    by (simp_all add: demo_world_def)
  have root: "localCacheFileName (gc demo_staged) n = localCacheFileName (gc demo_world) n" for n
    by (rule localCacheFileName_root) (simp add: demo_staged_def)
  have started: "startSetCacheOnce (gc demo_staged)" by (simp add: demo_staged_def)
  have fresh_zip: "disk demo_world (localCacheFileName (gc demo_world) ?zip) = None
      \<and> stat_fault no_faults = None \<and> create_fault no_faults = None \<and> write_fault no_faults = None
      \<and> close_fault no_faults = None \<and> failure demo_content = None \<and> stat_fault no_faults = None"
    by (simp add: nf empty)
  from Set_idempotent [where w = demo_world and name = ?zip and ?io1.0 = no_faults
         and ?io2.0 = no_faults and ?content1.0 = demo_content and ?content2.0 = demo_content,
         THEN conjunct1, rule_format, OF fresh_zip]
  have twice_zip: "\<exists>w1. Set no_faults demo_world ?zip demo_content
                           = (None, w1, demo_content\<lparr>pending := []\<rparr>)
                      \<and> Set no_faults w1 ?zip demo_content = (None, w1, demo_content)"
    by (elim exE conjE, intro exI conjI)
  have first: "Set no_faults demo_world ?zip demo_content
                 = (None, demo_staged, demo_content\<lparr>pending := []\<rparr>)"
    using Set_fresh [of demo_world ?zip no_faults demo_content] nf empty
    by (simp add: demo_staged_def pending)
  from twice_zip
  have zip: "Set no_faults demo_staged ?zip demo_content = (None, demo_staged, demo_content)"
    unfolding first by (elim exE conjE) (simp only: prod.inject)
  have fresh_info: "disk demo_staged (localCacheFileName (gc demo_staged) ?info) = None
      \<and> stat_fault no_faults = None \<and> create_fault no_faults = None \<and> write_fault no_faults = None
      \<and> close_fault no_faults = None \<and> failure demo_content = None \<and> stat_fault no_faults = None"
    by (simp add: nf root demo_staged_proj demo_path demo_path_info)
  from Set_idempotent [where w = demo_staged and name = ?info and ?io1.0 = no_faults
         and ?io2.0 = no_faults and ?content1.0 = demo_content and ?content2.0 = demo_content,
         THEN conjunct1, rule_format, OF fresh_info]
  have "\<exists>w2. Set no_faults demo_staged ?info demo_content
                  = (None, w2, demo_content\<lparr>pending := []\<rparr>)
             \<and> Set no_faults w2 ?info demo_content = (None, w2, demo_content)
             \<and> dom (disk w2)
                 = insert (localCacheFileName (gc demo_staged) ?info) (dom (disk demo_staged))
             \<and> dom (settingCaches (gc w2))
                 = insert ?info (dom (settingCaches (gc demo_staged)))"
    by (elim exE conjE, intro exI conjI)
  then obtain w2 where w2:
    "Set no_faults demo_staged ?info demo_content = (None, w2, demo_content\<lparr>pending := []\<rparr>)"
    "Set no_faults w2 ?info demo_content = (None, w2, demo_content)"
    "dom (disk w2) = insert (localCacheFileName (gc demo_staged) ?info) (dom (disk demo_staged))"
    "dom (settingCaches (gc w2)) = insert ?info (dom (settingCaches (gc demo_staged)))"
    by (elim exE conjE)
  have disk1: "disk demo_staged
     = [''/tmp/goproxy-china-local-caches1/0d31d7c06ceefc37bcbd698b012934e6c04a4871724d429f81a6c37fa77de798''
          \<mapsto> [0x50, 0x4b, 0x03, 0x04]]"
    by (simp add: demo_staged_proj demo_path)
  then have card1: "card (dom (disk demo_staged)) = 1" by simp
  have reg1: "dom (settingCaches (gc demo_staged)) = {?zip}" by (simp add: demo_staged_proj)
  from w2(3) have card2: "card (dom (disk w2)) = 2"
    by (simp add: root demo_staged_proj demo_path demo_path_info)
  from w2(4) reg1 have reg2: "dom (settingCaches (gc w2)) = {?zip, ?info}" by auto
  show ?thesis
    unfolding w2(1) fst_conv snd_conv
    by (intro conjI first zip disk1 card1 reg1 started w2(2) card2 reg2 refl)
qed

text \<open>
  C7, as the code has it. Take a call of \<open>Set\<close> that found no staged file and created one.
  When the copy of the content stream fails, \<open>Set\<close> returns the error of the copy; when
  the copy succeeds and closing the file fails, \<open>Set\<close> returns the error of the close. In
  both cases \<open>Set\<close> calls \<^verbatim>\<open>os.Remove\<close> on the file and drops what it returns, and the
  registry is as it was before the call: the file is gone from the disk when the removal
  went through, and it stays with the bytes written so far when the removal failed. In
  any call at all, the registry changes only when the copy and the close both succeeded:
  then \<open>Set\<close> returns nil, the entry from the name to the path is the change, and the file
  holds what was copied.
\<close>

theorem Set_failure:
  assumes "Set io w name content = (result, w', content')"
    and "io_Copy (write_fault io) content = (written, rd, copied)"
  shows "(os_Stat (stat_fault io) (disk w) (localCacheFileName (gc w) name) = Some ErrNotExist
            \<and> create_fault io = None \<and> copied = Some err \<longrightarrow>
          result = Some err \<and> settingCaches (gc w') = settingCaches (gc w)
            \<and> (remove_fault io = None \<longrightarrow>
                  disk w' = (disk w)(localCacheFileName (gc w) name := None))
            \<and> (remove_fault io \<noteq> None \<longrightarrow>
                  disk w' = (disk w)(localCacheFileName (gc w) name \<mapsto> written)))
         \<and> (os_Stat (stat_fault io) (disk w) (localCacheFileName (gc w) name) = Some ErrNotExist
            \<and> create_fault io = None \<and> copied = None \<and> close_fault io = Some err \<longrightarrow>
          result = Some err \<and> settingCaches (gc w') = settingCaches (gc w)
            \<and> (remove_fault io = None \<longrightarrow>
                  disk w' = (disk w)(localCacheFileName (gc w) name := None))
            \<and> (remove_fault io \<noteq> None \<longrightarrow>
                  disk w' = (disk w)(localCacheFileName (gc w) name \<mapsto> written)))
         \<and> (settingCaches (gc w') \<noteq> settingCaches (gc w) \<longrightarrow>
          copied = None \<and> close_fault io = None \<and> result = None
            \<and> settingCaches (gc w') = (settingCaches (gc w))(name \<mapsto> localCacheFileName (gc w) name)
            \<and> disk w' (localCacheFileName (gc w) name) = Some written)"
  using assms(1)
proof (cases rule: Set_cases)
  case staged
  then show ?thesis by simp
next
  case (stat_failed e)
  then show ?thesis by simp
next
  case (create_failed e)
  then show ?thesis by simp
next
  case (copy_failed e wr)
  with assms(2) show ?thesis by (cases "remove_fault io") auto
next
  case (close_failed e wr)
  with assms(2) show ?thesis by (cases "remove_fault io") auto
next
  case (stored wr)
  with assms(2) show ?thesis by auto
qed

theorem Set_failure_witness:
  "fst (Set no_faults demo_world ''example.com/mod/@v/v1.0.0.zip'' failing_content)
     = Some (OtherError ''unexpected EOF'')
   \<and> disk (fst (snd (Set no_faults demo_world ''example.com/mod/@v/v1.0.0.zip'' failing_content)))
     = Map.empty
   \<and> settingCaches (gc (fst (snd (Set no_faults demo_world ''example.com/mod/@v/v1.0.0.zip'' failing_content))))
     = Map.empty
   \<and> fst (Set (no_faults\<lparr>close_fault := Some (OtherError ''input/output error'')\<rparr>) demo_world
         ''example.com/mod/@v/v1.0.0.zip'' demo_content)
     = Some (OtherError ''input/output error'')
   \<and> disk (fst (snd (Set (no_faults\<lparr>close_fault := Some (OtherError ''input/output error'')\<rparr>)
         demo_world ''example.com/mod/@v/v1.0.0.zip'' demo_content)))
     = Map.empty
   \<and> settingCaches (gc (fst (snd (Set (no_faults\<lparr>close_fault := Some (OtherError ''input/output error'')\<rparr>)
         demo_world ''example.com/mod/@v/v1.0.0.zip'' demo_content))))
     = Map.empty"
proof -
  let ?n = "''example.com/mod/@v/v1.0.0.zip''"
  let ?io = "no_faults\<lparr>close_fault := Some (OtherError ''input/output error'')\<rparr>"
  let ?eof = "OtherError ''unexpected EOF''"
  let ?eio = "OtherError ''input/output error''"
  have empty: "disk demo_world = Map.empty" "settingCaches (gc demo_world) = Map.empty"
    by (simp_all add: demo_world_def)
  have absent: "os_Stat (stat_fault io) (disk demo_world) (localCacheFileName (gc demo_world) ?n)
                  = Some ErrNotExist" if "stat_fault io = None" for io
    using that by (simp add: os_Stat_def empty)
  have copy1: "io_Copy (write_fault no_faults) failing_content
                 = ([0x50, 0x4b], failing_content\<lparr>pending := []\<rparr>, Some ?eof)"
    by (simp add: io_Copy_def no_faults_def failing_content_def)
  have copy2: "io_Copy (write_fault ?io) demo_content
                 = ([0x50, 0x4b, 0x03, 0x04], demo_content\<lparr>pending := []\<rparr>, None)"
    by (simp add: io_Copy_def no_faults_def demo_content_def)
  have triple: "t = (fst t, fst (snd t), snd (snd t))" for t :: "error option \<times> world \<times> Reader"
    by simp
  have nf: "stat_fault no_faults = None" "create_fault no_faults = None"
    "stat_fault ?io = None" "create_fault ?io = None" "close_fault ?io = Some ?eio"
    "remove_fault no_faults = None" "remove_fault ?io = None"
    by (simp_all add: no_faults_def)
  from Set_failure [OF triple [of "Set no_faults demo_world ?n failing_content"] copy1, where err = ?eof]
    absent [OF nf(1)] nf(2) nf(6)
  have copy_fails:
    "fst (Set no_faults demo_world ?n failing_content) = Some ?eof
     \<and> disk (fst (snd (Set no_faults demo_world ?n failing_content))) = Map.empty
     \<and> settingCaches (gc (fst (snd (Set no_faults demo_world ?n failing_content)))) = Map.empty"
    by (simp add: empty)
  from Set_failure [OF triple [of "Set ?io demo_world ?n demo_content"] copy2, where err = ?eio]
    absent [OF nf(3)] nf(4) nf(5) nf(7)
  have close_fails:
    "fst (Set ?io demo_world ?n demo_content) = Some ?eio
     \<and> disk (fst (snd (Set ?io demo_world ?n demo_content))) = Map.empty
     \<and> settingCaches (gc (fst (snd (Set ?io demo_world ?n demo_content)))) = Map.empty"
    by (simp add: empty)
  from copy_fails close_fails show ?thesis by blast
qed

text \<open>
  \<open>Set\<close> does not always delete the partial file. With a content stream that breaks off
  after two bytes and a removal that fails, \<open>Set\<close> returns the error of the copy and the
  two bytes are still on disk at the path of the name.
\<close>

theorem Set_failure_counterexample:
  "fst (Set (no_faults\<lparr>remove_fault := Some (OtherError ''sharing violation'')\<rparr>) demo_world
         ''example.com/mod/@v/v1.0.0.zip'' failing_content)
     = Some (OtherError ''unexpected EOF'')
   \<and> disk (fst (snd (Set (no_faults\<lparr>remove_fault := Some (OtherError ''sharing violation'')\<rparr>)
         demo_world ''example.com/mod/@v/v1.0.0.zip'' failing_content)))
       ''/tmp/goproxy-china-local-caches1/0d31d7c06ceefc37bcbd698b012934e6c04a4871724d429f81a6c37fa77de798''
     = Some [0x50, 0x4b]"
proof -
  let ?n = "''example.com/mod/@v/v1.0.0.zip''"
  let ?io = "no_faults\<lparr>remove_fault := Some (OtherError ''sharing violation'')\<rparr>"
  have root: "localCacheFileName (gc (Do_startSetCache demo_world)) ?n
                = localCacheFileName (gc demo_world) ?n"
    by (rule localCacheFileName_root) simp
  have empty: "disk demo_world = Map.empty" by (simp add: demo_world_def)
  have "Set ?io demo_world ?n failing_content
          = (Some (OtherError ''unexpected EOF''),
             Remove (Some (OtherError ''sharing violation'')) (localCacheFileName (gc demo_world) ?n)
               ((Do_startSetCache demo_world)
                  \<lparr>disk := [localCacheFileName (gc demo_world) ?n \<mapsto> [0x50, 0x4b]]\<rparr>),
             failing_content\<lparr>pending := []\<rparr>)"
    by (simp add: Set_def Let_def root empty no_faults_def failing_content_def os_Stat_def
          os_Create_def io_Copy_def errors_Is_def)
  then show ?thesis by (simp add: demo_path)
qed

text \<open>
  C3, as the code has it. In a visit of the synchronizer to an entry that is not cancelled
  and has opened the staged file and read its size: when \<^verbatim>\<open>StatObject\<close> finds an object
  under the name, the visit removes the entry from the registry, calls \<^verbatim>\<open>os.Remove\<close> on
  the staged file and drops what it returns, sends the store nothing but that one stat
  request, and lets the range go on. The staged file is gone when the removal went
  through; when the removal failed the disk is as it was, the file still there. In any
  visit, a \<^verbatim>\<open>PutObject\<close> request is sent only for the entry's own name and only if
  \<^verbatim>\<open>StatObject\<close> failed for it with the object-not-found error; the same holds of every
  \<^verbatim>\<open>PutObject\<close> request sent during a whole range over the registry.
\<close>

theorem startSetCache_never_overwrites:
  "(\<not> cancelled io \<and> os_Open (open_fault io) (disk w) v = Inr localCacheFile
      \<and> File_Stat (fstat_fault io) localCacheFile = Inr fileSize
      \<and> StatObject (qiniuKodoClient E) (qiniuKodoBucketName E) k = Inr info \<longrightarrow>
    fst (startSetCache_visit E io w k v)
    \<and> settingCaches (gc (snd (startSetCache_visit E io w k v))) = (settingCaches (gc w))(k := None)
    \<and> (sync_remove_fault io = None \<longrightarrow>
          disk (snd (startSetCache_visit E io w k v)) = (disk w)(v := None))
    \<and> (sync_remove_fault io \<noteq> None \<longrightarrow>
          disk (snd (startSetCache_visit E io w k v)) = disk w)
    \<and> requests (snd (startSetCache_visit E io w k v))
        = requests w @ [StatObjectRequest (qiniuKodoBucketName E) k])
   \<and> (PutObjectRequest b n body sz opts
         \<in> set (drop (length (requests w)) (requests (snd (startSetCache_visit E io w k v)))) \<longrightarrow>
       b = qiniuKodoBucketName E \<and> n = k
       \<and> (\<exists>err. StatObject (qiniuKodoClient E) (qiniuKodoBucketName E) k = Inl err
                 \<and> isMinIOObjectNotExist E err))
   \<and> (PutObjectRequest b n body sz opts
         \<in> set (drop (length (requests w)) (requests (Range E w entries))) \<longrightarrow>
       (\<exists>err. StatObject (qiniuKodoClient E) b n = Inl err \<and> isMinIOObjectNotExist E err))"
proof -
  have present: "fst (startSetCache_visit E io w k v)
    \<and> settingCaches (gc (snd (startSetCache_visit E io w k v))) = (settingCaches (gc w))(k := None)
    \<and> (sync_remove_fault io = None \<longrightarrow>
          disk (snd (startSetCache_visit E io w k v)) = (disk w)(v := None))
    \<and> (sync_remove_fault io \<noteq> None \<longrightarrow>
          disk (snd (startSetCache_visit E io w k v)) = disk w)
    \<and> requests (snd (startSetCache_visit E io w k v))
        = requests w @ [StatObjectRequest (qiniuKodoBucketName E) k]"
    if "\<not> cancelled io" "os_Open (open_fault io) (disk w) v = Inr localCacheFile"
      "File_Stat (fstat_fault io) localCacheFile = Inr fileSize"
      "StatObject (qiniuKodoClient E) (qiniuKodoBucketName E) k = Inr info"
    using that
    by (cases "sync_remove_fault io") (simp_all add: startSetCache_visit_def Let_def)
  have upload: "b = qiniuKodoBucketName E \<and> n = k
       \<and> (\<exists>err. StatObject (qiniuKodoClient E) (qiniuKodoBucketName E) k = Inl err
                 \<and> isMinIOObjectNotExist E err)"
    if "PutObjectRequest b n body sz opts
         \<in> set (drop (length (requests w)) (requests (snd (startSetCache_visit E io w k v))))"
    using that by (rule visit_uploads)
  from present upload Range_uploads [of b n body sz opts w E entries] show ?thesis by blast
qed

theorem startSetCache_never_overwrites_witness:
  "fst (startSetCache_visit (demo_env (demo_client 5000 [])) no_sync_faults demo_staged
          ''example.com/mod/@v/v1.0.0.zip''
          (localCacheFileName (gc demo_world) ''example.com/mod/@v/v1.0.0.zip''))
   \<and> settingCaches (gc (snd (startSetCache_visit (demo_env (demo_client 5000 [])) no_sync_faults
          demo_staged ''example.com/mod/@v/v1.0.0.zip''
          (localCacheFileName (gc demo_world) ''example.com/mod/@v/v1.0.0.zip'')))) = Map.empty
   \<and> disk (snd (startSetCache_visit (demo_env (demo_client 5000 [])) no_sync_faults
          demo_staged ''example.com/mod/@v/v1.0.0.zip''
          (localCacheFileName (gc demo_world) ''example.com/mod/@v/v1.0.0.zip''))) = Map.empty
   \<and> requests (snd (startSetCache_visit (demo_env (demo_client 5000 [])) no_sync_faults
          demo_staged ''example.com/mod/@v/v1.0.0.zip''
          (localCacheFileName (gc demo_world) ''example.com/mod/@v/v1.0.0.zip'')))
       = [StatObjectRequest ''goproxy'' ''example.com/mod/@v/v1.0.0.zip'']
   \<and> requests (snd (startSetCache_visit
          (demo_env (failing_stat (ErrorResponse 404) (demo_client 5000 []))) no_sync_faults
          demo_staged ''example.com/mod/@v/v1.0.0.zip''
          (localCacheFileName (gc demo_world) ''example.com/mod/@v/v1.0.0.zip'')))
       = [StatObjectRequest ''goproxy'' ''example.com/mod/@v/v1.0.0.zip'',
          PutObjectRequest ''goproxy'' ''example.com/mod/@v/v1.0.0.zip'' [0x50, 0x4b, 0x03, 0x04] 4
            \<lparr>ContentType = ''application/zip'', DisableMultipart = True\<rparr>]
   \<and> StatObject (qiniuKodoClient (demo_env (failing_stat (ErrorResponse 404) (demo_client 5000 []))))
        ''goproxy'' ''example.com/mod/@v/v1.0.0.zip'' = Inl (ErrorResponse 404)"
proof -
  let ?n = "''example.com/mod/@v/v1.0.0.zip''"
  let ?p = "localCacheFileName (gc demo_world) ?n"
  let ?E = "demo_env (demo_client 5000 [])"
  let ?E404 = "demo_env (failing_stat (ErrorResponse 404) (demo_client 5000 []))"
  let ?put = "PutObjectRequest ''goproxy'' ?n [0x50, 0x4b, 0x03, 0x04] 4
                \<lparr>ContentType = ''application/zip'', DisableMultipart = True\<rparr>"
  have stat: "StatObject (qiniuKodoClient ?E) (qiniuKodoBucketName ?E) ?n
                = Inr \<lparr>Key = ?n, Size = 5000, ETag = [], LastModified = 1700000000\<rparr>"
    by (simp add: demo_env_def demo_client_def)
  have absent: "requests (snd (startSetCache_visit ?E404 no_sync_faults demo_staged ?n ?p))
                  = [StatObjectRequest ''goproxy'' ?n, ?put]"
    using demo_staged_open
    by (simp add: startSetCache_visit_def Let_def demo_staged_proj demo_Ext demo_env_def
          failing_stat_def demo_client_def)
  then have issued: "?put \<in> set (drop (length (requests demo_staged))
                 (requests (snd (startSetCache_visit ?E404 no_sync_faults demo_staged ?n ?p))))"
    by (simp add: demo_staged_proj)
  from startSetCache_never_overwrites [where E = ?E and io = no_sync_faults and w = demo_staged
         and k = ?n and v = ?p and localCacheFile = "[0x50, 0x4b, 0x03, 0x04]" and fileSize = 4
         and info = "\<lparr>Key = ?n, Size = 5000, ETag = [], LastModified = 1700000000\<rparr>"]
       demo_staged_open stat
  have present: "fst (startSetCache_visit ?E no_sync_faults demo_staged ?n ?p)
     \<and> settingCaches (gc (snd (startSetCache_visit ?E no_sync_faults demo_staged ?n ?p))) = Map.empty
     \<and> disk (snd (startSetCache_visit ?E no_sync_faults demo_staged ?n ?p)) = Map.empty
     \<and> requests (snd (startSetCache_visit ?E no_sync_faults demo_staged ?n ?p))
         = [StatObjectRequest ''goproxy'' ?n]"
    by (simp add: demo_staged_proj) (simp add: demo_env_def)
  from startSetCache_never_overwrites [where E = ?E404 and io = no_sync_faults and w = demo_staged
         and k = ?n and v = ?p and b = "''goproxy''" and n = ?n
         and body = "[0x50, 0x4b, 0x03, 0x04]" and sz = 4
         and opts = "\<lparr>ContentType = ''application/zip'', DisableMultipart = True\<rparr>"]
       issued
  have "\<exists>err. StatObject (qiniuKodoClient ?E404) (qiniuKodoBucketName ?E404) ?n = Inl err
              \<and> isMinIOObjectNotExist ?E404 err"
    by blast
  then have notfound: "StatObject (qiniuKodoClient ?E404) ''goproxy'' ?n = Inl (ErrorResponse 404)"
    by (simp add: demo_env_def failing_stat_def)
  from present absent notfound show ?thesis by blast
qed

text \<open>
  The visit does not always delete the staged file. With the object present in the store
  and a removal that fails, the entry leaves the registry, no upload is sent, and the
  staged file is still on disk with its four bytes.
\<close>

theorem startSetCache_never_overwrites_counterexample:
  "settingCaches (gc (snd (startSetCache_visit (demo_env (demo_client 5000 []))
        (no_sync_faults\<lparr>sync_remove_fault := Some (OtherError ''sharing violation'')\<rparr>)
        demo_staged ''example.com/mod/@v/v1.0.0.zip''
        (localCacheFileName (gc demo_world) ''example.com/mod/@v/v1.0.0.zip''))))
       ''example.com/mod/@v/v1.0.0.zip'' = None
   \<and> requests (snd (startSetCache_visit (demo_env (demo_client 5000 []))
        (no_sync_faults\<lparr>sync_remove_fault := Some (OtherError ''sharing violation'')\<rparr>)
        demo_staged ''example.com/mod/@v/v1.0.0.zip''
        (localCacheFileName (gc demo_world) ''example.com/mod/@v/v1.0.0.zip'')))
       = [StatObjectRequest ''goproxy'' ''example.com/mod/@v/v1.0.0.zip'']
   \<and> disk (snd (startSetCache_visit (demo_env (demo_client 5000 []))
        (no_sync_faults\<lparr>sync_remove_fault := Some (OtherError ''sharing violation'')\<rparr>)
        demo_staged ''example.com/mod/@v/v1.0.0.zip''
        (localCacheFileName (gc demo_world) ''example.com/mod/@v/v1.0.0.zip'')))
       ''/tmp/goproxy-china-local-caches1/0d31d7c06ceefc37bcbd698b012934e6c04a4871724d429f81a6c37fa77de798''
     = Some [0x50, 0x4b, 0x03, 0x04]"
proof -
  let ?n = "''example.com/mod/@v/v1.0.0.zip''"
  let ?p = "localCacheFileName (gc demo_world) ?n"
  let ?io = "no_sync_faults\<lparr>sync_remove_fault := Some (OtherError ''sharing violation'')\<rparr>"
  have opened: "os_Open (open_fault ?io) (disk demo_staged) ?p = Inr [0x50, 0x4b, 0x03, 0x04]"
    "File_Stat (fstat_fault ?io) [0x50, 0x4b, 0x03, 0x04] = Inr 4" "\<not> cancelled ?io"
    by (simp_all add: os_Open_def File_Stat_def no_sync_faults_def demo_staged_proj)
  have visit: "startSetCache_visit (demo_env (demo_client 5000 [])) ?io demo_staged ?n ?p
     = (True, Remove (Some (OtherError ''sharing violation'')) ?p
          (Delete ?n (demo_staged\<lparr>requests := [StatObjectRequest ''goproxy'' ?n]\<rparr>)))"
    using opened
    by (simp add: startSetCache_visit_def Let_def demo_staged_proj demo_env_def demo_client_def
          no_sync_faults_def)
  show ?thesis
    unfolding visit by (simp add: demo_staged_proj) (simp add: demo_path)
qed

text \<open>
  C8. When a visit of the synchronizer uploads (the staged file was opened, its size read,
  and \<^verbatim>\<open>StatObject\<close> reported the object missing), it sends one \<^verbatim>\<open>PutObject\<close> request
  for the name with the bytes and the size of the staged file. The content type is
  \<open>application/json; charset=utf-8\<close> for the extension \<open>.info\<close>,
  \<open>text/plain; charset=utf-8\<close> for \<open>.mod\<close>, \<open>application/zip\<close> for \<open>.zip\<close> and empty for
  any other extension. Multipart transfer is disabled exactly when the size is strictly
  below 268435456 bytes, which is 256 MiB.
\<close>

theorem startSetCache_upload_parameters:
  assumes "\<not> cancelled io"
    and "os_Open (open_fault io) (disk w) v = Inr localCacheFile"
    and "File_Stat (fstat_fault io) localCacheFile = Inr fileSize"
    and "StatObject (qiniuKodoClient E) (qiniuKodoBucketName E) k = Inl err"
    and "isMinIOObjectNotExist E err"
  shows "\<exists>opts. requests (snd (startSetCache_visit E io w k v))
                  = requests w @ [StatObjectRequest (qiniuKodoBucketName E) k,
                       PutObjectRequest (qiniuKodoBucketName E) k localCacheFile fileSize opts]
           \<and> ContentType opts =
               (if Ext k = ''.info'' then ''application/json; charset=utf-8''
                else if Ext k = ''.mod'' then ''text/plain; charset=utf-8''
                else if Ext k = ''.zip'' then ''application/zip''
                else [])
           \<and> (DisableMultipart opts \<longleftrightarrow> fileSize < 268435456)
           \<and> (268435456 :: int) = 256 * 2 ^ 20
           \<and> (fstat_fault io = None \<longrightarrow> fileSize = int (length localCacheFile))"
proof -
  have threshold: "push_bit 20 (256::int) = 268435456" by (simp add: push_bit_eq_mult)
  from assms(3) have size: "fstat_fault io = None \<longrightarrow> fileSize = int (length localCacheFile)"
    by (auto simp: File_Stat_def)
  from assms threshold size show ?thesis
    by (cases "PutObject (qiniuKodoClient E) (qiniuKodoBucketName E) k localCacheFile fileSize
                 \<lparr>ContentType = (if Ext k = ''.info'' then ''application/json; charset=utf-8''
                     else if Ext k = ''.mod'' then ''text/plain; charset=utf-8''
                     else if Ext k = ''.zip'' then ''application/zip'' else []),
                   DisableMultipart = (fileSize < 268435456)\<rparr>")
       (simp_all add: startSetCache_visit_def Let_def)
qed

theorem startSetCache_upload_parameters_witness:
  "requests (snd (startSetCache_visit
      (demo_env (failing_stat (ErrorResponse 404) (demo_client 5000 []))) no_sync_faults
      demo_staged ''example.com/mod/@v/v1.0.0.zip''
      (localCacheFileName (gc demo_world) ''example.com/mod/@v/v1.0.0.zip'')))
   = [StatObjectRequest ''goproxy'' ''example.com/mod/@v/v1.0.0.zip'',
      PutObjectRequest ''goproxy'' ''example.com/mod/@v/v1.0.0.zip'' [0x50, 0x4b, 0x03, 0x04] 4
        \<lparr>ContentType = ''application/zip'', DisableMultipart = True\<rparr>]"
proof -
  let ?n = "''example.com/mod/@v/v1.0.0.zip''"
  let ?p = "localCacheFileName (gc demo_world) ?n"
  let ?E = "demo_env (failing_stat (ErrorResponse 404) (demo_client 5000 []))"
  have stat: "StatObject (qiniuKodoClient ?E) (qiniuKodoBucketName ?E) ?n = Inl (ErrorResponse 404)"
    and notfound: "isMinIOObjectNotExist ?E (ErrorResponse 404)"
    and bucket: "qiniuKodoBucketName ?E = ''goproxy''"
    by (simp_all add: demo_env_def failing_stat_def)
  from startSetCache_upload_parameters [OF demo_staged_open(3) demo_staged_open(1)
         demo_staged_open(2) stat notfound]
  obtain opts where
    "requests (snd (startSetCache_visit ?E no_sync_faults demo_staged ?n ?p))
       = requests demo_staged @ [StatObjectRequest (qiniuKodoBucketName ?E) ?n,
            PutObjectRequest (qiniuKodoBucketName ?E) ?n [0x50, 0x4b, 0x03, 0x04] 4 opts]"
    "ContentType opts = ''application/zip''" "DisableMultipart opts"
    by (auto simp: demo_Ext)
  then show ?thesis by (simp add: bucket demo_staged_proj)
qed

text \<open>
  C9. The shutdown job sleeps one second before each call of \<^verbatim>\<open>os.RemoveAll\<close> and calls it
  at most 60 times. When call number \<open>k\<close> (counted from 0, below 60) is the first that
  succeeds, the job has slept and tried exactly \<open>k + 1\<close> times and stops with the staging
  root removed. When all 60 calls fail it stops after the 60th with the root still there.
  So if any call within the budget succeeds, the root is removed. The job is a total
  function: it always ends.
\<close>

theorem shutdownJob_bounded:
  "(k < 60 \<and> removal k = None \<and> (\<forall>j < k. removal j \<noteq> None) \<longrightarrow>
      shutdownJob removal root 0 ([], True)
        = (concat (replicate (Suc k) [Sleep Second, RemoveAll root]), False))
   \<and> ((\<forall>j < 60. removal j \<noteq> None) \<longrightarrow>
      shutdownJob removal root 0 ([], True)
        = (concat (replicate 60 [Sleep Second, RemoveAll root]), True))
   \<and> (\<exists>n \<le> 60. fst (shutdownJob removal root 0 ([], True))
                    = concat (replicate n [Sleep Second, RemoveAll root]))
   \<and> ((\<exists>j < 60. removal j = None) \<longrightarrow> \<not> snd (shutdownJob removal root 0 ([], True)))"
proof (intro conjI impI)
  assume "k < 60 \<and> removal k = None \<and> (\<forall>j < k. removal j \<noteq> None)"
  then show "shutdownJob removal root 0 ([], True)
        = (concat (replicate (Suc k) [Sleep Second, RemoveAll root]), False)"
    using shutdownJob_first [of k removal root] by blast
next
  assume "\<forall>j < 60. removal j \<noteq> None"
  then show "shutdownJob removal root 0 ([], True)
        = (concat (replicate 60 [Sleep Second, RemoveAll root]), True)"
    by (rule shutdownJob_none)
next
  show "\<exists>n \<le> 60. fst (shutdownJob removal root 0 ([], True))
                    = concat (replicate n [Sleep Second, RemoveAll root])"
  proof (cases "\<exists>j < 60. removal j = None")
    case True
    from first_success_exists [OF True] obtain m where
      m: "m < 60" "removal m = None" "\<forall>j < m. removal j \<noteq> None" by blast
    have "fst (shutdownJob removal root 0 ([], True))
            = concat (replicate (Suc m) [Sleep Second, RemoveAll root])"
      unfolding shutdownJob_first [OF m] by (rule fst_conv)
    moreover from m(1) have "Suc m \<le> 60" by (rule Suc_leI)
    ultimately show ?thesis by blast
  next
    case False
    then have "\<forall>j < 60. removal j \<noteq> None" by metis
    then have "fst (shutdownJob removal root 0 ([], True))
            = concat (replicate 60 [Sleep Second, RemoveAll root])"
      unfolding shutdownJob_none [OF \<open>\<forall>j < 60. removal j \<noteq> None\<close>] by (simp only: fst_conv)
    then show ?thesis by blast
  qed
next
  assume "\<exists>j < 60. removal j = None"
  from first_success_exists [OF this] obtain m where
    m: "m < 60" "removal m = None" "\<forall>j < m. removal j \<noteq> None" by blast
  show "\<not> snd (shutdownJob removal root 0 ([], True))"
    unfolding shutdownJob_first [OF m] by (simp only: snd_conv simp_thms)
qed

theorem shutdownJob_bounded_witness:
  "shutdownJob flaky_removal ''/tmp/goproxy-china-local-caches1'' 0 ([], True)
     = ([Sleep Second, RemoveAll ''/tmp/goproxy-china-local-caches1'',
         Sleep Second, RemoveAll ''/tmp/goproxy-china-local-caches1'',
         Sleep Second, RemoveAll ''/tmp/goproxy-china-local-caches1''], False)"
proof -
  have third: "(2::nat) < 60 \<and> flaky_removal 2 = None \<and> (\<forall>j < 2. flaky_removal j \<noteq> None)"
    by (simp add: flaky_removal_def)
  have three: "concat (replicate (Suc 2) [Sleep Second, RemoveAll r]) =
                 [Sleep Second, RemoveAll r, Sleep Second, RemoveAll r, Sleep Second, RemoveAll r]"
    for r by (simp add: numeral_2_eq_2)
  from shutdownJob_bounded [where k = 2 and removal = flaky_removal
         and root = "''/tmp/goproxy-china-local-caches1''", THEN conjunct1, rule_format, OF third]
  show ?thesis unfolding three .
qed

end
